theory Spec2Isabelle
  imports Complex_Main
begin

section \<open>JavaScript strings\<close>

text \<open>
  Source text is a \<open>string\<close>: a list of 8-bit characters, one per code unit. The helpers
  below are the \<open>String.prototype\<close> methods the analyzers call.
\<close>

definition isWhiteSpace :: "char \<Rightarrow> bool" where
  \<comment> \<open>WhiteSpace and LineTerminator of ECMAScript within Latin-1: TAB, LF, VT, FF, CR, SP, NBSP.
     It is what \<open>trim\<close> strips and what \<open>\s\<close> matches.\<close>
  "isWhiteSpace c = (let n = (of_char c :: nat) in (9 \<le> n \<and> n \<le> 13) \<or> n = 32 \<or> n = 160)"

definition isWordChar :: "char \<Rightarrow> bool" where
  \<comment> \<open>\<open>\w\<close>: \<open>[A-Za-z0-9_]\<close>\<close>
  "isWordChar c = (let n = (of_char c :: nat) in
     (48 \<le> n \<and> n \<le> 57) \<or> (65 \<le> n \<and> n \<le> 90) \<or> n = 95 \<or> (97 \<le> n \<and> n \<le> 122))"

definition isDigit :: "char \<Rightarrow> bool" where
  \<comment> \<open>\<open>\d\<close>: \<open>[0-9]\<close>\<close>
  "isDigit c = (let n = (of_char c :: nat) in 48 \<le> n \<and> n \<le> 57)"

definition canonicalize :: "char \<Rightarrow> char" where
  \<comment> \<open>Case folding of the \<open>i\<close> flag. Every literal of the patterns below is ASCII, and no
     character outside ASCII canonicalizes to an ASCII one, so folding \<open>a-z\<close> is enough.\<close>
  "canonicalize c =
     (let n = (of_char c :: nat) in if 97 \<le> n \<and> n \<le> 122 then char_of (n - 32) else c)"

fun startsWith :: "string \<Rightarrow> string \<Rightarrow> bool" where
  "startsWith s [] = True"
| "startsWith [] (p # ps) = False"
| "startsWith (c # cs) (p # ps) = (c = p \<and> startsWith cs ps)"

definition endsWith :: "string \<Rightarrow> string \<Rightarrow> bool" where
  "endsWith s p = startsWith (rev s) (rev p)"

fun includes_str :: "string \<Rightarrow> string \<Rightarrow> bool" where
  "includes_str [] p = (p = [])"
| "includes_str (c # cs) p = (startsWith (c # cs) p \<or> includes_str cs p)"

fun split_nl :: "string \<Rightarrow> string list" where
  \<comment> \<open>\<open>s.split('\n')\<close>: never empty, one more element than there are line feeds (so the
     second case of the \<open>case\<close> is never taken).\<close>
  "split_nl [] = [[]]"
| "split_nl (c # cs) =
     (if c = CHR 0x0A then [] # split_nl cs
      else (case split_nl cs of l # ls \<Rightarrow> (c # l) # ls | [] \<Rightarrow> [[c]]))"

definition trim :: "string \<Rightarrow> string" where
  "trim s = rev (dropWhile isWhiteSpace (rev (dropWhile isWhiteSpace s)))"

definition count_char :: "char \<Rightarrow> string \<Rightarrow> nat" where
  \<comment> \<open>\<open>(line.match(/c/g) || []).length\<close> and \<open>s.split(c).length - 1\<close> for a single
     character \<open>c\<close>\<close>
  "count_char c s = length (filter (\<lambda>x. x = c) s)"

fun digits_of :: "nat \<Rightarrow> string" where
  "digits_of n =
     (if n < 10 then [char_of (48 + n)] else digits_of (n div 10) @ [char_of (48 + n mod 10)])"

definition Number_toString :: "int \<Rightarrow> string" where
  \<comment> \<open>an integer inside a template literal\<close>
  "Number_toString i = (if i < 0 then CHR ''-'' # digits_of (nat (- i)) else digits_of (nat i))"

definition parseInt :: "string \<Rightarrow> nat" where
  \<comment> \<open>\<open>parseInt\<close> on a string of decimal digits (it is only called on matches of
     \<open>\d{2,}\<close>)\<close>
  "parseInt s = foldl (\<lambda>acc c. 10 * acc + (of_char c - 48)) 0 s"

section \<open>Regular expressions\<close>

text \<open>
  The patterns of the source are alternatives of sequences of literals, greedy repetitions
  of a character class, \<open>^\<close> and \<open>\b\<close>. A sequence is matched by backtracking as the
  ECMAScript matcher does: a repetition first takes the longest run and gives characters
  back one at a time; the alternatives are tried in order at each start position.
\<close>

datatype rx_item =
    Lit string
  | Rep "char \<Rightarrow> bool" nat "nat option"
  | Bol
  | Wb

fun first_some :: "('a \<Rightarrow> 'b option) \<Rightarrow> 'a list \<Rightarrow> 'b option" where
  "first_some f [] = None"
| "first_some f (x # xs) = (case f x of Some y \<Rightarrow> Some y | None \<Rightarrow> first_some f xs)"

fun run_length :: "(char \<Rightarrow> bool) \<Rightarrow> string \<Rightarrow> nat" where
  "run_length c [] = 0"
| "run_length c (x # xs) = (if c x then Suc (run_length c xs) else 0)"

definition lit_at :: "bool \<Rightarrow> string \<Rightarrow> string \<Rightarrow> nat \<Rightarrow> bool" where
  "lit_at ci l s p =
     (if ci then map canonicalize (take (length l) (drop p s)) = map canonicalize l
      else take (length l) (drop p s) = l)"

definition word_at :: "string \<Rightarrow> nat \<Rightarrow> bool" where
  "word_at s i = (i < length s \<and> isWordChar (s ! i))"

definition is_boundary :: "string \<Rightarrow> nat \<Rightarrow> bool" where
  "is_boundary s p = ((p > 0 \<and> word_at s (p - 1)) \<noteq> word_at s p)"

primrec m_items :: "rx_item list \<Rightarrow> bool \<Rightarrow> string \<Rightarrow> nat \<Rightarrow> nat option" where
  \<comment> \<open>the end index of the match of a sequence that starts at index \<open>p\<close> of \<open>s\<close>\<close>
  "m_items [] ci s p = Some p"
| "m_items (it # its) ci s p =
     (case it of
        Lit l \<Rightarrow> if lit_at ci l s p then m_items its ci s (p + length l) else None
      | Rep c mn mx \<Rightarrow>
          (let n = run_length c (drop p s);
               hi = (case mx of None \<Rightarrow> n | Some k \<Rightarrow> min n k)
           in if hi < mn then None
              else first_some (\<lambda>k. m_items its ci s (p + k)) (rev [mn..<Suc hi]))
      | Bol \<Rightarrow> if p = 0 then m_items its ci s p else None
      | Wb \<Rightarrow> if is_boundary s p then m_items its ci s p else None)"

record regex =
  alternatives :: "rx_item list list"
  ignoreCase :: bool

definition rx_at :: "regex \<Rightarrow> string \<Rightarrow> nat \<Rightarrow> nat option" where
  "rx_at r s p = first_some (\<lambda>alt. m_items alt (ignoreCase r) s p) (alternatives r)"

definition rx_exec :: "regex \<Rightarrow> string \<Rightarrow> nat \<Rightarrow> (nat \<times> nat) option" where
  \<comment> \<open>RegExpBuiltinExec from \<open>lastIndex = li\<close>: the leftmost match that starts at or after
     \<open>li\<close>, as (start, end); nothing when \<open>li\<close> is beyond the end of \<open>s\<close>.\<close>
  "rx_exec r s li = first_some (\<lambda>p. map_option (Pair p) (rx_at r s p)) [li..<Suc (length s)]"

definition test_sticky :: "regex \<Rightarrow> string \<Rightarrow> nat \<Rightarrow> bool \<times> nat" where
  \<comment> \<open>\<open>r.test(s)\<close> of a regex with the \<open>g\<close> flag and \<open>lastIndex = li\<close>: the result and
     the new \<open>lastIndex\<close> (the end of the match, or 0 after a failure).\<close>
  "test_sticky r s li = (case rx_exec r s li of None \<Rightarrow> (False, 0) | Some (b, e) \<Rightarrow> (True, e))"

definition test :: "regex \<Rightarrow> string \<Rightarrow> bool" where
  \<comment> \<open>\<open>r.test(s)\<close> of a regex without the \<open>g\<close> flag: always from index 0\<close>
  "test r s = (rx_exec r s 0 \<noteq> None)"

fun scan_matches :: "regex \<Rightarrow> string \<Rightarrow> nat \<Rightarrow> nat list \<Rightarrow> (nat \<times> nat) list" where
  "scan_matches r s li [] = []"
| "scan_matches r s li (p # ps) =
     (if p < li then scan_matches r s li ps
      else case rx_at r s p of
             None \<Rightarrow> scan_matches r s li ps
           | Some e \<Rightarrow> (p, e) # scan_matches r s (if e = p then Suc e else e) ps)"

definition matchAll :: "regex \<Rightarrow> string \<Rightarrow> (nat \<times> nat) list" where
  \<comment> \<open>\<open>[...s.matchAll(r)]\<close> and \<open>s.match(r)\<close> of a \<open>g\<close> regex: the successive
     non-overlapping matches from index 0, each as (start, end); an empty match advances
     \<open>lastIndex\<close> by one.\<close>
  "matchAll r s = scan_matches r s 0 [0..<Suc (length s)]"

definition matched_text :: "string \<Rightarrow> nat \<times> nat \<Rightarrow> string" where
  "matched_text s m = take (snd m - fst m) (drop (fst m) s)"

definition ws0 :: rx_item where "ws0 = Rep isWhiteSpace 0 None"
definition ws1 :: rx_item where "ws1 = Rep isWhiteSpace 1 None"
definition w1 :: rx_item where "w1 = Rep isWordChar 1 None"

definition oneOf :: "string \<Rightarrow> rx_item" where
  "oneOf cs = Rep (\<lambda>c. c \<in> set cs) 1 (Some 1)"

definition someNotOf :: "string \<Rightarrow> rx_item" where
  "someNotOf cs = Rep (\<lambda>c. c \<notin> set cs) 1 None"

definition quotes :: string where
  "quotes = [CHR 0x22, CHR 0x27]"

section \<open>The review engine of \<open>performReview\<close>\<close>

text \<open>
  \<^verbatim>\<open>src/agents/code-review-expert.js\<close> holds two \<open>CodeReviewExpert\<close> classes. This
  section is the first (entry point \<open>performReview\<close>, lines 5 to 652): pattern rules
  over the file content, a complexity count, a maintainability score and a report sorted by
  severity. The file read, \<open>fs.stat\<close> and \<open>path.extname\<close> are inputs.
\<close>

record static_issue =
  s_severity :: string
  s_type :: string
  s_message :: string
  s_line :: nat
  s_column :: nat
  s_code :: "string option"
  s_file :: "string option"

record pattern_rule =
  pattern :: regex
  p_severity :: string
  p_type :: string
  p_message :: string

definition patterns :: "pattern_rule list" where
  "patterns =
    [\<lparr> pattern = \<lparr> alternatives = [[Lit ''console.log'']], ignoreCase = False \<rparr>,
       p_severity = ''LOW'', p_type = ''Debug Code'',
       p_message = ''Console.log statements should be removed in production code'' \<rparr>,
     \<lparr> pattern = \<lparr> alternatives = [[Lit ''TODO''], [Lit ''FIXME''], [Lit ''HACK'']],
                     ignoreCase = True \<rparr>,
       p_severity = ''MEDIUM'', p_type = ''Technical Debt'',
       p_message = ''TODO/FIXME comments indicate unfinished work'' \<rparr>,
     \<lparr> pattern = \<lparr> alternatives = [[Lit ''eval'', ws0, Lit ''('']], ignoreCase = False \<rparr>,
       p_severity = ''CRITICAL'', p_type = ''Security'',
       p_message = ''Use of eval() can lead to security vulnerabilities'' \<rparr>,
     \<lparr> pattern = \<lparr> alternatives = [[Lit ''innerHTML'', ws0, Lit ''='']], ignoreCase = False \<rparr>,
       p_severity = ''HIGH'', p_type = ''Security'',
       p_message = ''innerHTML assignment may lead to XSS vulnerabilities'' \<rparr>,
     \<lparr> pattern = \<lparr> alternatives = [[Lit ''var'', ws1]], ignoreCase = False \<rparr>,
       p_severity = ''LOW'', p_type = ''Modern JavaScript'',
       p_message = ''Consider using let/const instead of var'' \<rparr>]"

record fileInfo =
  path :: string
  fsize :: nat
  extension :: string
  lines :: nat
  content :: string

definition issue_of_match :: "pattern_rule \<Rightarrow> string \<Rightarrow> nat \<times> nat \<Rightarrow> static_issue" where
  \<comment> \<open>the body of \<open>matches.forEach\<close>: line and column come from the text before the match\<close>
  "issue_of_match r c m =
     (let ls = split_nl (take (fst m) c)
      in \<lparr> s_severity = p_severity r, s_type = p_type r, s_message = p_message r,
           s_line = length ls, s_column = length (last ls) + 1,
           s_code = Some (matched_text c m), s_file = None \<rparr>)"

definition pattern_issues :: "string \<Rightarrow> static_issue list" where
  "pattern_issues c =
     concat (map (\<lambda>r. map (issue_of_match r c) (matchAll (pattern r) c)) patterns)"

definition is_statement :: "string \<Rightarrow> bool" where
  "is_statement l =
     (trim l \<noteq> [] \<and> \<not> startsWith (trim l) ''//'' \<and> \<not> startsWith (trim l) ''*'' \<and>
      \<not> endsWith (trim l) '';'' \<and> \<not> endsWith (trim l) ''{'' \<and> \<not> endsWith (trim l) ''}'')"

definition style_issues :: "fileInfo \<Rightarrow> static_issue list" where
  \<comment> \<open>\<open>statements.length > fileInfo.lines * 0.3\<close> is read over the reals: for line counts
     below \<open>2^53\<close> the double product compares with an integer as the exact one does.\<close>
  "style_issues fi =
     (if extension fi = ''.js'' \<or> extension fi = ''.ts'' then
        (let statements = filter is_statement (split_nl (content fi))
         in if real (length statements) > real (lines fi) * (3 / 10)
            then [\<lparr> s_severity = ''LOW'', s_type = ''Code Style'',
                    s_message = ''Consider using consistent semicolon usage'',
                    s_line = 1, s_column = 1, s_code = None, s_file = None \<rparr>]
            else [])
      else [])"

definition complexityIndicators :: "regex list" where
  "complexityIndicators =
    [\<lparr> alternatives = [[Lit ''if'', ws0, Lit ''('']], ignoreCase = False \<rparr>,
     \<lparr> alternatives = [[Lit ''else'']], ignoreCase = False \<rparr>,
     \<lparr> alternatives = [[Lit ''for'', ws0, Lit ''('']], ignoreCase = False \<rparr>,
     \<lparr> alternatives = [[Lit ''while'', ws0, Lit ''('']], ignoreCase = False \<rparr>,
     \<lparr> alternatives = [[Lit ''switch'', ws0, Lit ''('']], ignoreCase = False \<rparr>,
     \<lparr> alternatives = [[Lit ''catch'', ws0, Lit ''('']], ignoreCase = False \<rparr>,
     \<lparr> alternatives = [[Lit ''&&''], [Lit ''||'']], ignoreCase = False \<rparr>]"

definition calculateComplexity :: "string \<Rightarrow> nat" where
  "calculateComplexity c =
     min (fold (\<lambda>r complexity. complexity + length (matchAll r c)) complexityIndicators 1) 100"

record maintainability_t =
  score :: int
  commentRatio :: real
  avgLineLength :: real

definition is_comment_line :: "string \<Rightarrow> bool" where
  "is_comment_line l =
     (startsWith (trim l) ''//'' \<or> startsWith (trim l) ''*'' \<or> startsWith (trim l) ''/*'')"

definition assessMaintainability :: "string \<Rightarrow> fileInfo \<Rightarrow> maintainability_t" where
  \<comment> \<open>The two ratios are quotients of integers below \<open>2^53\<close>; their double values compare
     with 0.1, 0.3, 120 and 200 as the exact quotients do, so they are reals here.\<close>
  "assessMaintainability c fi =
     (let ls = split_nl c;
          commentLines = length (filter is_comment_line ls);
          ratio = real commentLines / real (length ls);
          avg = real (length c) / real (length ls);
          sc = (10 :: int);
          sc = (if lines fi > 500 then sc - 2 else sc);
          sc = (if lines fi > 1000 then sc - 3 else sc);
          sc = (if ratio < 1 / 10 then sc - 2 else sc);
          sc = (if ratio > 3 / 10 then sc + 1 else sc);
          sc = (if avg > 120 then sc - 1 else sc);
          sc = (if avg > 200 then sc - 2 else sc)
      in \<lparr> score = max 1 (min 10 sc), commentRatio = ratio, avgLineLength = avg \<rparr>)"

record file_analysis = fileInfo +
  issues :: "static_issue list"
  complexity :: nat
  maintainability :: maintainability_t

definition performStaticAnalysis :: "fileInfo \<Rightarrow> file_analysis" where
  "performStaticAnalysis fi =
     fileInfo.extend fi
       (file_analysis.fields
          (pattern_issues (content fi) @ style_issues fi)
          (calculateComplexity (content fi))
          (assessMaintainability (content fi) fi))"

datatype read_result =
    ReadError string
  | ReadOk string nat

datatype analysis =
    Skipped string string
  | Failed string string
  | Analyzed file_analysis

definition analyzeFile :: "string \<Rightarrow> string \<Rightarrow> read_result \<Rightarrow> analysis" where
  \<comment> \<open>\<open>analyzeFile filePath ext rr\<close>: \<open>ext\<close> is \<open>path.extname(filePath)\<close>, \<open>rr\<close> what
     \<open>fs.readFile\<close> and \<open>fs.stat\<close> gave (the content and the size on disk, or the
     message of the exception).\<close>
  "analyzeFile filePath ext rr =
     (case rr of
        ReadError msg \<Rightarrow> Failed filePath msg
      | ReadOk c sz \<Rightarrow>
          if length c > 50000 then Skipped filePath ''File too large for review''
          else Analyzed (performStaticAnalysis
                 \<lparr> path = filePath, fsize = sz, extension = ext,
                   lines = length (split_nl c), content = take 10000 c \<rparr>))"

definition analysis_issues :: "analysis \<Rightarrow> static_issue list option" where
  \<comment> \<open>\<open>analysis.issues\<close>: undefined on a skipped or failed file\<close>
  "analysis_issues a = (case a of Analyzed fa \<Rightarrow> Some (issues fa) | _ \<Rightarrow> None)"

definition analysis_path :: "analysis \<Rightarrow> string option" where
  \<comment> \<open>\<open>analysis.path\<close>: a skipped or failed file has \<open>filePath\<close> only\<close>
  "analysis_path a = (case a of Analyzed fa \<Rightarrow> Some (path fa) | _ \<Rightarrow> None)"

definition analysis_skipped :: "analysis \<Rightarrow> bool" where
  \<comment> \<open>\<open>analysis.skipped || false\<close>\<close>
  "analysis_skipped a = (case a of Skipped f r \<Rightarrow> True | _ \<Rightarrow> False)"

record file_summary =
  fs_file :: "string option"
  fs_issues :: nat
  fs_complexity :: nat
  fs_maintainability_score :: int
  fs_skipped :: bool

definition summarize_file :: "analysis \<Rightarrow> file_summary" where
  "summarize_file a =
     \<lparr> fs_file = analysis_path a,
       fs_issues = (case analysis_issues a of Some is \<Rightarrow> length is | None \<Rightarrow> 0),
       fs_complexity = (case a of Analyzed fa \<Rightarrow> complexity fa | _ \<Rightarrow> 0),
       fs_maintainability_score = (case a of Analyzed fa \<Rightarrow> score (maintainability fa) | _ \<Rightarrow> 5),
       fs_skipped = analysis_skipped a \<rparr>"

definition collect_issues :: "analysis \<Rightarrow> static_issue list" where
  \<comment> \<open>the first half of the \<open>fileAnalyses.forEach\<close> body: each issue stamped with its file\<close>
  "collect_issues a =
     (case analysis_issues a of
        Some is \<Rightarrow> map (\<lambda>i. i\<lparr> s_file := analysis_path a \<rparr>) is
      | None \<Rightarrow> [])"

subsection \<open>Array.prototype.sort\<close>

text \<open>
  \<open>sort\<close> is stable (ECMAScript 2019). A comparator result of NaN (here \<open>None\<close>) counts
  as \<open>+0\<close>. For a consistent comparator the sorted, stable arrangement is unique, and the
  insertion sort below computes it.
\<close>

definition comes_first :: "('a \<Rightarrow> 'a \<Rightarrow> int option) \<Rightarrow> 'a \<Rightarrow> 'a \<Rightarrow> bool" where
  "comes_first cmp x y = (case cmp x y of None \<Rightarrow> True | Some v \<Rightarrow> v \<le> 0)"

fun insert_sorted :: "('a \<Rightarrow> 'a \<Rightarrow> int option) \<Rightarrow> 'a \<Rightarrow> 'a list \<Rightarrow> 'a list" where
  "insert_sorted cmp x [] = [x]"
| "insert_sorted cmp x (y # ys) =
     (if comes_first cmp x y then x # y # ys else y # insert_sorted cmp x ys)"

definition array_sort :: "('a \<Rightarrow> 'a \<Rightarrow> int option) \<Rightarrow> 'a list \<Rightarrow> 'a list" where
  "array_sort cmp xs = foldr (insert_sorted cmp) xs []"

definition minus_numbers :: "int option \<Rightarrow> int option \<Rightarrow> int option" where
  \<comment> \<open>\<open>a - b\<close> where a missing key gives \<open>undefined\<close> and the difference NaN\<close>
  "minus_numbers a b = (case (a, b) of (Some x, Some y) \<Rightarrow> Some (x - y) | _ \<Rightarrow> None)"

definition severityOrder :: "string \<Rightarrow> int option" where
  "severityOrder =
     map_of [(''CRITICAL'', 0), (''HIGH'', 1), (''MEDIUM'', 2), (''LOW'', 3), (''INFO'', 4)]"

record summary_t =
  filesReviewed :: nat
  totalIssues :: nat
  criticalIssues :: nat
  highIssues :: nat
  mediumIssues :: nat
  lowIssues :: nat

record review_report =
  summary :: summary_t
  report_issues :: "static_issue list"
  filesSummary :: "file_summary list"

definition generateReviewReport :: "analysis list \<Rightarrow> review_report" where
  \<comment> \<open>without \<open>aiInsights\<close> and \<open>projectContext\<close>, which come from the chat client and
     from git and do not touch the other fields\<close>
  "generateReviewReport fileAnalyses =
     (let allIssues = concat (map collect_issues fileAnalyses);
          allIssues = array_sort
            (\<lambda>a b. minus_numbers (severityOrder (s_severity a)) (severityOrder (s_severity b)))
            allIssues
      in \<lparr> summary =
             \<lparr> filesReviewed = length fileAnalyses,
               totalIssues = length allIssues,
               criticalIssues = length (filter (\<lambda>i. s_severity i = ''CRITICAL'') allIssues),
               highIssues = length (filter (\<lambda>i. s_severity i = ''HIGH'') allIssues),
               mediumIssues = length (filter (\<lambda>i. s_severity i = ''MEDIUM'') allIssues),
               lowIssues = length (filter (\<lambda>i. s_severity i = ''LOW'') allIssues) \<rparr>,
           report_issues = allIssues,
           filesSummary = map summarize_file fileAnalyses \<rparr>)"

definition analyze_all :: "(string \<times> string \<times> read_result) list \<Rightarrow> analysis list" where
  \<comment> \<open>the loop of \<open>performReview\<close> over the files to review, each given as its path, its
     extension and what the read gave; every analysis is an object, so every one is kept\<close>
  "analyze_all filesToReview =
     map (\<lambda>f. analyzeFile (fst f) (fst (snd f)) (snd (snd f))) filesToReview"

definition performReview :: "(string \<times> string \<times> read_result) list \<Rightarrow> string + review_report" where
  \<comment> \<open>\<open>performReview\<close> from the files \<open>getFilesToReview\<close> resolved to the report it
     writes out; \<open>Inl\<close> is the error of the \<open>success: false\<close> result\<close>
  "performReview filesToReview =
     (if filesToReview = [] then Inl ''No files found for review''
      else Inr (generateReviewReport (analyze_all filesToReview)))"

section \<open>The review engine of \<open>reviewCode\<close>\<close>

text \<open>
  The second \<open>CodeReviewExpert\<close> of the file (entry point \<open>reviewCode\<close>, lines 658
  to 1078), the one the command line runs: four line-oriented checks per file, then the
  issues of all files sorted by severity.
\<close>

record issue =
  type :: string
  category :: string
  line :: nat
  message :: string
  severity :: string
  in_file :: "string option"

definition each_line :: "(nat \<Rightarrow> string \<Rightarrow> 'a list) \<Rightarrow> string list \<Rightarrow> 'a list" where
  \<comment> \<open>\<open>lines.forEach((line, index) => ...)\<close> where the body only pushes what it finds
     on that line\<close>
  "each_line f ls = concat (map (\<lambda>(index, l). f index l) (enumerate 0 ls))"

subsection \<open>checkCommonIssues\<close>

definition console_log_check :: "nat \<Rightarrow> string \<Rightarrow> issue list" where
  "console_log_check index l =
     (if includes_str l ''console.log'' \<and> \<not> startsWith (trim l) ''//''
      then [\<lparr> type = ''warning'', category = ''Debug Code'', line = index + 1,
              message = ''Console.log statement found - consider removing for production'',
              severity = ''low'', in_file = None \<rparr>]
      else [])"

definition todo_check :: "nat \<Rightarrow> string \<Rightarrow> issue list" where
  "todo_check index l =
     (if includes_str l ''TODO'' \<or> includes_str l ''FIXME''
      then [\<lparr> type = ''info'', category = ''TODO/FIXME'', line = index + 1,
              message = ''TODO or FIXME comment found'', severity = ''info'', in_file = None \<rparr>]
      else [])"

definition functionRegex :: regex where
  \<comment> \<open>\<open>/function\s+\w+|const\s+\w+\s*=\s*\(|^\s*\w+\s*:\s*function|class\s+\w+/g\<close>\<close>
  "functionRegex =
     \<lparr> alternatives =
         [[Lit ''function'', ws1, w1],
          [Lit ''const'', ws1, w1, ws0, Lit ''='', ws0, Lit ''(''],
          [Bol, ws0, w1, ws0, Lit '':'', ws0, Lit ''function''],
          [Lit ''class'', ws1, w1]],
       ignoreCase = False \<rparr>"

record span_state =
  currentFunction :: "string option"
  functionStartLine :: int
  braceCount :: int
  lastIndex :: nat
  long_functions :: "issue list"

definition truthy :: "string option \<Rightarrow> bool" where
  \<comment> \<open>\<open>null\<close> and the empty string are falsy\<close>
  "truthy v = (case v of None \<Rightarrow> False | Some s \<Rightarrow> s \<noteq> [])"

definition long_function_issue :: "int \<Rightarrow> int \<Rightarrow> issue" where
  "long_function_issue index start =
     \<lparr> type = ''warning'', category = ''Code Complexity'', line = nat start,
       message = ''Function is too long ('' @ Number_toString (index - start + 1)
                 @ '' lines). Consider breaking it down.'',
       severity = ''medium'', in_file = None \<rparr>"

definition span_step :: "nat \<times> string \<Rightarrow> span_state \<Rightarrow> span_state" where
  \<comment> \<open>one round of the long-function \<open>forEach\<close>; \<open>lastIndex\<close> is the state the \<open>g\<close>
     flag keeps in \<open>functionRegex\<close> between two calls of \<open>test\<close>\<close>
  "span_step il st =
     (let index = fst il; l = snd il;
          t = test_sticky functionRegex l (lastIndex st);
          st = st\<lparr> lastIndex := snd t \<rparr>;
          st = (if fst t
                then st\<lparr> currentFunction := Some (trim l),
                        functionStartLine := int index + 1,
                        braceCount := 0 \<rparr>
                else st)
      in if truthy (currentFunction st) then
           (let st = st\<lparr> braceCount := braceCount st + int (count_char (CHR ''{'') l) \<rparr>;
                st = st\<lparr> braceCount := braceCount st - int (count_char (CHR ''}'') l) \<rparr>
            in if braceCount st = 0 \<and> int index - functionStartLine st + 1 > 50
               then st\<lparr> long_functions :=
                           long_functions st @ [long_function_issue (int index) (functionStartLine st)],
                         currentFunction := None \<rparr>
               else st)
         else st)"

definition span_init :: span_state where
  "span_init = \<lparr> currentFunction = None, functionStartLine = 0, braceCount = 0,
                 lastIndex = 0, long_functions = [] \<rparr>"

definition span_scan :: "string list \<Rightarrow> span_state" where
  "span_scan ls = fold span_step (enumerate 0 ls) span_init"

definition checkCommonIssues :: "string \<Rightarrow> issue list" where
  "checkCommonIssues c =
     (let ls = split_nl c
      in each_line console_log_check ls @ each_line todo_check ls @ long_functions (span_scan ls))"

subsection \<open>checkSecurity\<close>

definition secret_tail :: "rx_item list" where
  \<comment> \<open>\<open>\s*[=:]\s*["'][^"']+["']\<close>\<close>
  "secret_tail = [ws0, oneOf ''=:'', ws0, oneOf quotes, someNotOf quotes, oneOf quotes]"

definition secretPatterns :: "regex list" where
  "secretPatterns =
    [\<lparr> alternatives = [Lit ''password'' # secret_tail], ignoreCase = True \<rparr>,
     \<lparr> alternatives = [[Lit ''api'', Rep (\<lambda>c. c \<in> set ''_-'') 0 (Some 1), Lit ''key'']
                        @ secret_tail], ignoreCase = True \<rparr>,
     \<lparr> alternatives = [Lit ''secret'' # secret_tail], ignoreCase = True \<rparr>,
     \<lparr> alternatives = [Lit ''token'' # secret_tail], ignoreCase = True \<rparr>]"

definition secret_issue :: "nat \<Rightarrow> issue" where
  "secret_issue index =
     \<lparr> type = ''error'', category = ''Security'', line = index + 1,
       message = ''Possible hardcoded secret detected. Use environment variables instead.'',
       severity = ''high'', in_file = None \<rparr>"

definition secret_check :: "nat \<Rightarrow> string \<Rightarrow> issue list" where
  "secret_check index l =
     concat (map (\<lambda>p. if test p l \<and> \<not> includes_str l ''process.env''
                       then [secret_issue index] else [])
                 secretPatterns)"

fun findIndex :: "('a \<Rightarrow> bool) \<Rightarrow> 'a list \<Rightarrow> int" where
  "findIndex P [] = - 1"
| "findIndex P (x # xs) = (if P x then 0 else (let i = findIndex P xs in if i < 0 then i else i + 1))"

definition eval_check :: "string \<Rightarrow> issue list" where
  "eval_check c =
     (if includes_str c ''eval(''
      then [\<lparr> type = ''error'', category = ''Security'',
              line = nat (findIndex (\<lambda>l. includes_str l ''eval('') (split_nl c) + 1),
              message = ''Use of eval() is dangerous and should be avoided'',
              severity = ''high'', in_file = None \<rparr>]
      else [])"

definition checkSecurity :: "string \<Rightarrow> issue list" where
  "checkSecurity c = each_line secret_check (split_nl c) @ eval_check c"

subsection \<open>checkPerformance\<close>

definition syncMethods :: "string list" where
  "syncMethods = [''readFileSync'', ''writeFileSync'', ''existsSync'']"

definition sync_check :: "nat \<Rightarrow> string \<Rightarrow> issue list" where
  "sync_check index l =
     concat (map (\<lambda>m. if includes_str l m \<and> \<not> startsWith (trim l) ''//''
                       then [\<lparr> type = ''warning'', category = ''Performance'', line = index + 1,
                               message = ''Synchronous '' @ m
                                 @ '' call may block the event loop. Consider using async version.'',
                               severity = ''medium'', in_file = None \<rparr>]
                       else [])
                 syncMethods)"

definition is_loop_line :: "string \<Rightarrow> bool" where
  "is_loop_line l = (includes_str l ''for '' \<or> includes_str l ''while '' \<or> includes_str l ''forEach'')"

definition nested_loop_issue :: "nat \<Rightarrow> issue" where
  "nested_loop_issue index =
     \<lparr> type = ''warning'', category = ''Performance'', line = index + 1,
       message = ''Deeply nested loops detected. Consider optimizing algorithm complexity.'',
       severity = ''medium'', in_file = None \<rparr>"

definition loop_step :: "nat \<times> string \<Rightarrow> int \<times> issue list \<Rightarrow> int \<times> issue list" where
  \<comment> \<open>one round of the nested-loop \<open>forEach\<close> on the state (loopDepth, issues pushed)\<close>
  "loop_step il st =
     (let index = fst il; l = snd il; loopDepth = fst st; found = snd st;
          st = (if is_loop_line l
                then (loopDepth + 1,
                      if loopDepth + 1 > 2 then found @ [nested_loop_issue index] else found)
                else (loopDepth, found))
      in if includes_str l ''}'' then (max 0 (fst st - 1), snd st) else st)"

definition loop_scan :: "string list \<Rightarrow> int \<times> issue list" where
  "loop_scan ls = fold loop_step (enumerate 0 ls) (0, [])"

definition checkPerformance :: "string \<Rightarrow> issue list" where
  "checkPerformance c =
     (let ls = split_nl c in each_line sync_check ls @ snd (loop_scan ls))"

subsection \<open>checkMaintainability\<close>

definition magicNumberRegex :: regex where
  \<comment> \<open>\<open>/\b(\d{2,})\b/g\<close>\<close>
  "magicNumberRegex = \<lparr> alternatives = [[Wb, Rep isDigit 2 None, Wb]], ignoreCase = False \<rparr>"

definition magic_number_check :: "nat \<Rightarrow> string \<Rightarrow> issue list" where
  "magic_number_check index l =
     (let numbers = map (matched_text l) (matchAll magicNumberRegex l)
      in if numbers \<noteq> [] \<and> \<not> startsWith (trim l) ''//''
         then concat (map (\<lambda>num.
                if parseInt num > 1 \<and> parseInt num \<noteq> 100 \<and> parseInt num \<noteq> 1000
                then [\<lparr> type = ''info'', category = ''Maintainability'', line = index + 1,
                        message = ''Magic number '' @ num
                          @ '' found. Consider using a named constant.'',
                        severity = ''low'', in_file = None \<rparr>]
                else []) numbers)
         else [])"

definition parameterListRegex :: regex where
  \<comment> \<open>the \<open>functionRegex\<close> of checkMaintainability: \<open>/function\s*\([^)]+\)|\([^)]+\)\s*=>/g\<close>\<close>
  "parameterListRegex =
     \<lparr> alternatives =
         [[Lit ''function'', ws0, Lit ''('', someNotOf '')'', Lit '')''],
          [Lit ''('', someNotOf '')'', Lit '')'', ws0, Lit ''=>'']],
       ignoreCase = False \<rparr>"

definition parameter_list_check :: "nat \<Rightarrow> string \<Rightarrow> issue list" where
  "parameter_list_check index l =
     concat (map (\<lambda>m.
        (let params = count_char (CHR '','') (matched_text l m) + 1
         in if params > 4
            then [\<lparr> type = ''warning'', category = ''Maintainability'', line = index + 1,
                    message = ''Function has '' @ Number_toString (int params)
                      @ '' parameters. Consider using an options object.'',
                    severity = ''low'', in_file = None \<rparr>]
            else [])) (matchAll parameterListRegex l))"

definition checkMaintainability :: "string \<Rightarrow> issue list" where
  "checkMaintainability c =
     (let ls = split_nl c in each_line magic_number_check ls @ each_line parameter_list_check ls)"

subsection \<open>analyzeFiles, identifyIssues and the statistics\<close>

record fileAnalysis =
  fa_file :: string
  fa_content :: string
  fa_lines :: "string list"
  fa_size :: nat
  fa_issues :: "issue list"

definition analyze_one :: "string \<times> string option \<Rightarrow> fileAnalysis list" where
  \<comment> \<open>the body of the loop of analyzeFiles on a file name and what \<open>fs.readFile\<close> gave
     (\<open>None\<close>: it threw, the file is left out with a warning)\<close>
  "analyze_one fc =
     (case snd fc of
        None \<Rightarrow> []
      | Some c \<Rightarrow>
          [\<lparr> fa_file = fst fc, fa_content = c, fa_lines = split_nl c, fa_size = length c,
             fa_issues = checkCommonIssues c @ checkSecurity c @ checkPerformance c
                         @ checkMaintainability c \<rparr>])"

definition analyzeFiles :: "(string \<times> string option) list \<Rightarrow> fileAnalysis list" where
  "analyzeFiles codeFiles = concat (map analyze_one codeFiles)"

definition severityOrder2 :: "string \<Rightarrow> int option" where
  \<comment> \<open>the \<open>severityOrder\<close> of identifyIssues\<close>
  "severityOrder2 = map_of [(''high'', 0), (''medium'', 1), (''low'', 2), (''info'', 3)]"

definition flatten_issues :: "fileAnalysis list \<Rightarrow> issue list" where
  "flatten_issues an =
     concat (map (\<lambda>fa. map (\<lambda>i. i\<lparr> in_file := Some (fa_file fa) \<rparr>) (fa_issues fa)) an)"

definition identifyIssues :: "fileAnalysis list \<Rightarrow> issue list" where
  "identifyIssues an =
     array_sort (\<lambda>a b. minus_numbers (severityOrder2 (severity a)) (severityOrder2 (severity b)))
       (flatten_issues an)"

record stats =
  total :: nat
  high :: nat
  medium :: nat
  low :: nat
  info :: nat

definition getStats :: "issue list \<Rightarrow> stats" where
  "getStats is =
     \<lparr> total = length is,
       high = length (filter (\<lambda>i. severity i = ''high'') is),
       medium = length (filter (\<lambda>i. severity i = ''medium'') is),
       low = length (filter (\<lambda>i. severity i = ''low'') is),
       info = length (filter (\<lambda>i. severity i = ''info'') is) \<rparr>"

fun push_to :: "string \<Rightarrow> issue \<Rightarrow> (string \<times> issue list) list \<Rightarrow> (string \<times> issue list) list" where
  \<comment> \<open>\<open>if (!acc[k]) acc[k] = []; acc[k].push(i)\<close> on an object as its entries in insertion
     order\<close>
  "push_to k i [] = [(k, [i])]"
| "push_to k i ((k', is) # acc) = (if k' = k then (k', is @ [i]) # acc else (k', is) # push_to k i acc)"

definition byCategory :: "issue list \<Rightarrow> (string \<times> issue list) list" where
  \<comment> \<open>the grouping of generateReport, whose section headers print \<open>categoryIssues.length\<close>\<close>
  "byCategory is = foldl (\<lambda>acc i. push_to (category i) i acc) [] is"

definition reviewCode_issues :: "(string \<times> string option) list \<Rightarrow> issue list" where
  \<comment> \<open>the issues reviewCode reports on and counts: identifyIssues (analyzeFiles codeFiles)\<close>
  "reviewCode_issues codeFiles = identifyIssues (analyzeFiles codeFiles)"

section \<open>Notions the properties are stated with\<close>

text \<open>
  Nothing below is code of the repository: these are the sample inputs, the predicates and
  the formula of the specification that the theorems mention.
\<close>

definition spec_score :: "nat \<Rightarrow> real \<Rightarrow> real \<Rightarrow> int" where
  \<comment> \<open>the maintainability score as the specification words it\<close>
  "spec_score lineCount ratio avg =
     max 1 (min 10
       (10 - (if lineCount > 500 then 2 else 0) - (if lineCount > 1000 then 3 else 0)
          - (if ratio < 1 / 10 then 2 else 0) + (if ratio > 3 / 10 then 1 else 0)
          - (if avg > 120 then 1 else 0) - (if avg > 200 then 2 else 0)))"

definition file_issues :: "string \<Rightarrow> issue list" where
  \<comment> \<open>the issues \<open>analyzeFiles\<close> records for one readable file of content \<open>c\<close>\<close>
  "file_issues c = concat (map fa_issues (analyzeFiles [(''file.js'', Some c)]))"

definition severity_rank :: "static_issue \<Rightarrow> int" where
  "severity_rank i = (case severityOrder (s_severity i) of Some n \<Rightarrow> n | None \<Rightarrow> 0)"

definition severity_rank2 :: "issue \<Rightarrow> int" where
  "severity_rank2 i = (case severityOrder2 (severity i) of Some n \<Rightarrow> n | None \<Rightarrow> 0)"

definition reported_severity :: "static_issue \<Rightarrow> bool" where
  "reported_severity i =
     (s_severity i = ''CRITICAL'' \<or> s_severity i = ''HIGH'' \<or> s_severity i = ''MEDIUM''
      \<or> s_severity i = ''LOW'')"

definition known_severity :: "issue \<Rightarrow> bool" where
  "known_severity i =
     (severity i = ''high'' \<or> severity i = ''medium'' \<or> severity i = ''low''
      \<or> severity i = ''info'')"

definition has_category :: "string \<Rightarrow> issue \<Rightarrow> bool" where
  "has_category k f = (category f = k)"


definition join_nl :: "string list \<Rightarrow> string" where
  \<comment> \<open>\<open>lines.join('\n')\<close>, to write a file as its lines\<close>
  "join_nl ls = (case ls of [] \<Rightarrow> [] | l # rest \<Rightarrow> l @ concat (map (\<lambda>x. CHR 0x0A # x) rest))"

definition located_in :: "string \<Rightarrow> nat \<Rightarrow> static_issue \<Rightarrow> bool" where
  \<comment> \<open>the issue reports a match \<open>[b, e)\<close> of \<open>c\<close> that ends within the first \<open>n\<close>
     characters: its line, column and code are those of that match\<close>
  "located_in c n i =
     list_ex (\<lambda>b. list_ex (\<lambda>e.
         s_line i = length (split_nl (take b c))
       \<and> s_column i = length (last (split_nl (take b c))) + 1
       \<and> s_code i = Some (take (e - b) (drop b c)))
       [b..<Suc (min n (length c))]) [0..<Suc (min n (length c))]"

definition no_declaration :: "string \<Rightarrow> bool" where
  \<comment> \<open>\<open>functionRegex\<close> finds nothing in the line, whatever its \<open>lastIndex\<close>\<close>
  "no_declaration l = list_all (\<lambda>li. rx_exec functionRegex l li = None) [0..<Suc (length l)]"

definition brace_delta :: "string \<Rightarrow> int" where
  \<comment> \<open>what one line adds to \<open>braceCount\<close>: its opening braces minus its closing braces\<close>
  "brace_delta l = int (count_char (CHR ''{'') l) - int (count_char (CHR ''}'') l)"

fun stays_open :: "int \<Rightarrow> string list \<Rightarrow> bool" where
  \<comment> \<open>starting from the balance \<open>b\<close>, the balance is not zero after any of the lines\<close>
  "stays_open b [] = True"
| "stays_open b (l # ls) = (b + brace_delta l \<noteq> 0 \<and> stays_open (b + brace_delta l) ls)"

fun stays_quiet :: "int \<Rightarrow> int \<Rightarrow> nat \<Rightarrow> string list \<Rightarrow> bool" where
  \<comment> \<open>for a span started at line \<open>start\<close>, with balance \<open>b\<close> before the line of index
     \<open>i\<close>: on none of the lines the test of the report
     \<open>braceCount === 0 && (index - functionStartLine + 1) > 50\<close> holds\<close>
  "stays_quiet start b i [] = True"
| "stays_quiet start b i (l # ls) =
     (\<not> (b + brace_delta l = 0 \<and> int i - start + 1 > 50)
      \<and> stays_quiet start (b + brace_delta l) (Suc i) ls)"

definition span_open :: "string \<Rightarrow> int \<Rightarrow> int \<Rightarrow> nat \<Rightarrow> span_state" where
  \<comment> \<open>the state of the long-function scan with an open span and nothing reported\<close>
  "span_open name start b li =
     \<lparr> currentFunction = Some name, functionStartLine = start, braceCount = b,
       lastIndex = li, long_functions = [] \<rparr>"

subsection \<open>Sample files\<close>

definition nested_decl :: "string list" where
  "nested_decl = [''function outer() {'', ''  const x = 1;'', ''  function inner() {'']"

definition secret_line :: string where
  "secret_line = ''const apiKey = '' @ [CHR 0x22] @ ''sk-abc123'' @ [CHR 0x22] @ '';''"

definition env_line :: string where
  "env_line = ''const apiKey = process.env.API_KEY;''"



definition commented_secret :: string where
  "commented_secret =
     ''// const password = '' @ [CHR 0x22] @ ''hunter2'' @ [CHR 0x22] @ ''; console.log(42)''"

definition block_comment :: "string list" where
  "block_comment = [''/*'', '' * console.log(42)'', '' */'']"

definition guarded_line :: string where
  "guarded_line = ''const token = '' @ [CHR 0x22] @ ''dev'' @ [CHR 0x22]
                  @ '' || process.env.TOKEN;''"

definition oversized_source :: string where
  "oversized_source = join_nl [secret_line, replicate 50001 (CHR ''x'')]"

definition nested_body_file :: "string list" where
  "nested_body_file = replicate 9 ''// header'' @ [''function longFunction() {'']
     @ ([''  if (ready) {''] @ replicate 62 ''    doWork();'' @ [''  }'']) @ [''}'']
     @ replicate 45 ''// footer''"

definition const_in_body_file :: "string list" where
  "const_in_body_file = replicate 9 ''// header'' @ [''function longFunction() {'']
     @ (replicate 29 ''  doWork();'' @ [''  const y = (1 + 2);''] @ replicate 34 ''  doWork();'')
     @ [''}''] @ replicate 45 ''// footer''"

definition beyond_prefix :: string where
  "beyond_prefix = replicate 10000 (CHR ''a'') @ ''eval(x)''"

section \<open>Verified properties\<close>

subsection \<open>Lines, line by line\<close>

lemma split_nl_nonempty: "split_nl s \<noteq> []"
  by (induction s) (auto split: list.splits)

lemma split_nl_line: "CHR 0x0A \<notin> set l \<Longrightarrow> split_nl (l @ CHR 0x0A # rest) = l # split_nl rest"
  by (induction l) auto

lemma split_nl_single: "CHR 0x0A \<notin> set l \<Longrightarrow> split_nl l = [l]"
  by (induction l) auto

lemma join_nl_Cons2: "join_nl (l # l' # ls) = l @ CHR 0x0A # join_nl (l' # ls)"
  by (simp add: join_nl_def)

lemma split_nl_join_nl:
  "ls \<noteq> [] \<Longrightarrow> \<forall>l\<in>set ls. CHR 0x0A \<notin> set l \<Longrightarrow> split_nl (join_nl ls) = ls"
proof (induction ls rule: induct_list012)
  case 1
  then show ?case by simp
next
  case (2 l)
  then show ?case by (simp add: join_nl_def split_nl_single)
next
  case (3 l l' ls)
  then show ?case by (simp add: join_nl_Cons2 split_nl_line del: split_nl.simps)
qed

lemma trim_empty_all_space: "trim l = [] \<Longrightarrow> \<forall>c\<in>set l. isWhiteSpace c"
proof -
  assume "trim l = []"
  then have a: "\<forall>x\<in>set (dropWhile isWhiteSpace l). isWhiteSpace x"
    by (simp add: trim_def dropWhile_eq_Nil_conv)
  have "dropWhile isWhiteSpace l = []"
  proof (cases "dropWhile isWhiteSpace l")
    case Nil
    then show ?thesis .
  next
    case (Cons y ys)
    then have "\<not> isWhiteSpace y" by (metis hd_dropWhile list.sel(1) list.distinct(1))
    with a Cons show ?thesis by simp
  qed
  then show ?thesis by (simp add: dropWhile_eq_Nil_conv)
qed

lemma brace_not_space: "\<not> isWhiteSpace (CHR ''{'') \<and> \<not> isWhiteSpace (CHR ''}'')"
  by code_simp

lemma count_char_zero: "c \<notin> set s \<Longrightarrow> count_char c s = 0"
  by (auto simp: count_char_def filter_empty_conv)

lemma each_line_from_at:
  assumes "\<And>index l. list_all (\<lambda>f. line f = index + 1) (chk index l)"
  shows "i < length ls \<Longrightarrow>
     filter (\<lambda>f. line f = n + i + 1) (concat (map (\<lambda>(index, l). chk index l) (enumerate n ls)))
       = chk (n + i) (ls ! i)"
proof (induction ls arbitrary: n i)
  case Nil
  then show ?case by simp
next
  case (Cons l ls)
  have later: "filter (\<lambda>f. line f = n + 1) (concat (map (\<lambda>(index, l). chk index l) (enumerate (Suc n) ls))) = []"
  proof -
    have "list_all (\<lambda>f. line f \<noteq> n + 1) (concat (map (\<lambda>(index, l). chk index l) (enumerate (Suc n) ls)))"
      using assms by (fastforce simp: list_all_iff in_set_enumerate_eq)
    then show ?thesis by (simp add: list_all_iff filter_empty_conv)
  qed
  show ?case
  proof (cases i)
    case 0
    have "filter (\<lambda>f. line f = n + 1) (chk n l) = chk n l"
      using assms[of n l] by (simp add: list_all_iff filter_id_conv)
    with 0 later show ?thesis by simp
  next
    case (Suc j)
    have "filter (\<lambda>f. line f = n + Suc j + 1) (chk n l) = []"
      using assms[of n l] by (simp add: list_all_iff filter_empty_conv)
    moreover have "filter (\<lambda>f. line f = Suc n + j + 1)
        (concat (map (\<lambda>(index, l). chk index l) (enumerate (Suc n) ls))) = chk (Suc n + j) (ls ! j)"
      using Cons.IH[of j "Suc n"] Cons.prems Suc by simp
    ultimately show ?thesis using Suc by simp
  qed
qed

lemma each_line_at:
  assumes "\<And>index l. list_all (\<lambda>f. line f = index + 1) (chk index l)"
  shows "i < length ls \<Longrightarrow> filter (\<lambda>f. line f = i + 1) (each_line chk ls) = chk i (ls ! i)"
  using each_line_from_at[OF assms, of i ls 0] by (simp add: each_line_def)

lemma each_line_contains:
  assumes "\<And>index l. list_all (\<lambda>f. line f = index + 1) (chk index l)" and "i < length ls"
  shows "set (chk i (ls ! i)) \<subseteq> set (each_line chk ls)"
proof -
  have "set (filter (\<lambda>f. line f = i + 1) (each_line chk ls)) \<subseteq> set (each_line chk ls)"
    by auto
  then show ?thesis unfolding each_line_at[of chk, OF assms] .
qed

lemma each_line_all:
  assumes "\<And>index l. list_all P (f index l)"
  shows "list_all P (each_line f ls)"
  using assms by (auto simp: each_line_def list_all_iff)

lemma list_all_concat_map:
  "(\<And>x. list_all P (f x)) \<Longrightarrow> list_all P (concat (map f xs))"
  by (induction xs) simp_all

lemma file_issues_eq:
  "file_issues c = checkCommonIssues c @ checkSecurity c @ checkPerformance c @ checkMaintainability c"
  by (simp add: file_issues_def analyzeFiles_def analyze_one_def)

subsection \<open>The category of every issue\<close>

lemma span_step_category:
  "list_all (has_category ''Code Complexity'') (long_functions st)
   \<Longrightarrow> list_all (has_category ''Code Complexity'') (long_functions (span_step il st))"
  by (simp add: span_step_def Let_def long_function_issue_def has_category_def)

lemma fold_span_step_category:
  "list_all (has_category ''Code Complexity'') (long_functions st)
   \<Longrightarrow> list_all (has_category ''Code Complexity'') (long_functions (fold span_step xs st))"
  by (induction xs arbitrary: st) (simp_all add: span_step_category)

lemma span_scan_category: "list_all (has_category ''Code Complexity'') (long_functions (span_scan ls))"
  unfolding span_scan_def by (rule fold_span_step_category) (simp add: span_init_def)

lemma loop_step_category:
  "list_all (has_category ''Performance'') (snd st)
   \<Longrightarrow> list_all (has_category ''Performance'') (snd (loop_step il st))"
  by (simp add: loop_step_def Let_def nested_loop_issue_def has_category_def)

lemma fold_loop_step_category:
  "list_all (has_category ''Performance'') (snd st)
   \<Longrightarrow> list_all (has_category ''Performance'') (snd (fold loop_step xs st))"
  by (induction xs arbitrary: st) (simp_all add: loop_step_category)

lemma loop_scan_category: "list_all (has_category ''Performance'') (snd (loop_scan ls))"
  unfolding loop_scan_def by (rule fold_loop_step_category) simp

lemma console_category: "list_all (has_category ''Debug Code'') (each_line console_log_check ls)"
  by (rule each_line_all) (simp add: console_log_check_def has_category_def)

lemma todo_category: "list_all (has_category ''TODO/FIXME'') (each_line todo_check ls)"
  by (rule each_line_all) (simp add: todo_check_def has_category_def)

lemma checkSecurity_category: "list_all (has_category ''Security'') (checkSecurity c)"
  unfolding checkSecurity_def
  by (simp add: each_line_all secret_check_def list_all_concat_map secret_issue_def eval_check_def
      has_category_def)

lemma sync_category: "list_all (has_category ''Performance'') (each_line sync_check ls)"
  by (rule each_line_all) (simp add: sync_check_def list_all_concat_map has_category_def)

lemma checkPerformance_category: "list_all (has_category ''Performance'') (checkPerformance c)"
  unfolding checkPerformance_def Let_def
  by (simp add: sync_category loop_scan_category)

lemma checkMaintainability_category: "list_all (has_category ''Maintainability'') (checkMaintainability c)"
  unfolding checkMaintainability_def Let_def
  by (simp add: each_line_all magic_number_check_def parameter_list_check_def list_all_concat_map
      has_category_def Let_def)

lemma other_category_filtered:
  "list_all (has_category k) xs \<Longrightarrow> k \<noteq> k' \<Longrightarrow> filter (\<lambda>f. category f = k') xs = []"
  by (auto simp: list_all_iff has_category_def filter_empty_conv)

lemma same_category_kept:
  "list_all (has_category k) xs \<Longrightarrow> filter (\<lambda>f. category f = k) xs = xs"
  by (auto simp: list_all_iff has_category_def filter_id_conv)

lemma security_issues_of_file:
  "filter (\<lambda>f. category f = ''Security'') (file_issues c) = checkSecurity c"
proof -
  have "filter (\<lambda>f. category f = ''Security'') (checkCommonIssues c) = []"
    using other_category_filtered[OF console_category, of "''Security''"]
      other_category_filtered[OF todo_category, of "''Security''"]
      other_category_filtered[OF span_scan_category, of "''Security''"]
    by (simp add: checkCommonIssues_def Let_def)
  moreover have "filter (\<lambda>f. category f = ''Security'') (checkPerformance c) = []"
    using other_category_filtered[OF checkPerformance_category, of "''Security''"] by simp
  moreover have "filter (\<lambda>f. category f = ''Security'') (checkMaintainability c) = []"
    using other_category_filtered[OF checkMaintainability_category, of "''Security''"] by simp
  ultimately show ?thesis
    by (simp add: file_issues_eq same_category_kept[OF checkSecurity_category])
qed

lemma complexity_issues_of_file:
  "filter (\<lambda>f. category f = ''Code Complexity'') (file_issues c) = long_functions (span_scan (split_nl c))"
proof -
  have "filter (\<lambda>f. category f = ''Code Complexity'') (checkCommonIssues c) = long_functions (span_scan (split_nl c))"
    using other_category_filtered[OF console_category, of "''Code Complexity''"]
      other_category_filtered[OF todo_category, of "''Code Complexity''"]
      same_category_kept[OF span_scan_category]
    by (simp add: checkCommonIssues_def Let_def)
  moreover have "filter (\<lambda>f. category f = ''Code Complexity'') (checkSecurity c) = []"
    using other_category_filtered[OF checkSecurity_category, of "''Code Complexity''"] by simp
  moreover have "filter (\<lambda>f. category f = ''Code Complexity'') (checkPerformance c) = []"
    using other_category_filtered[OF checkPerformance_category, of "''Code Complexity''"] by simp
  moreover have "filter (\<lambda>f. category f = ''Code Complexity'') (checkMaintainability c) = []"
    using other_category_filtered[OF checkMaintainability_category, of "''Code Complexity''"] by simp
  ultimately show ?thesis
    by (simp add: file_issues_eq)
qed

lemma debug_issues_of_file:
  "filter (\<lambda>f. category f = ''Debug Code'') (file_issues c) = each_line console_log_check (split_nl c)"
proof -
  have "filter (\<lambda>f. category f = ''Debug Code'') (checkCommonIssues c) = each_line console_log_check (split_nl c)"
    using same_category_kept[OF console_category]
      other_category_filtered[OF todo_category, of "''Debug Code''"]
      other_category_filtered[OF span_scan_category, of "''Debug Code''"]
    by (simp add: checkCommonIssues_def Let_def)
  moreover have "filter (\<lambda>f. category f = ''Debug Code'') (checkSecurity c) = []"
    using other_category_filtered[OF checkSecurity_category, of "''Debug Code''"] by simp
  moreover have "filter (\<lambda>f. category f = ''Debug Code'') (checkPerformance c) = []"
    using other_category_filtered[OF checkPerformance_category, of "''Debug Code''"] by simp
  moreover have "filter (\<lambda>f. category f = ''Debug Code'') (checkMaintainability c) = []"
    using other_category_filtered[OF checkMaintainability_category, of "''Debug Code''"] by simp
  ultimately show ?thesis
    by (simp add: file_issues_eq)
qed

subsection \<open>The severity of every issue\<close>

lemma span_step_known:
  "list_all known_severity (long_functions st) \<Longrightarrow> list_all known_severity (long_functions (span_step il st))"
  by (simp add: span_step_def Let_def long_function_issue_def known_severity_def)

lemma fold_span_step_known:
  "list_all known_severity (long_functions st) \<Longrightarrow> list_all known_severity (long_functions (fold span_step xs st))"
  by (induction xs arbitrary: st) (simp_all add: span_step_known)

lemma span_scan_known: "list_all known_severity (long_functions (span_scan ls))"
  unfolding span_scan_def by (rule fold_span_step_known) (simp add: span_init_def)

lemma loop_step_known:
  "list_all known_severity (snd st) \<Longrightarrow> list_all known_severity (snd (loop_step il st))"
  by (simp add: loop_step_def Let_def nested_loop_issue_def known_severity_def)

lemma fold_loop_step_known:
  "list_all known_severity (snd st) \<Longrightarrow> list_all known_severity (snd (fold loop_step xs st))"
  by (induction xs arbitrary: st) (simp_all add: loop_step_known)

lemma loop_scan_known: "list_all known_severity (snd (loop_scan ls))"
  unfolding loop_scan_def by (rule fold_loop_step_known) simp

lemma checkCommonIssues_known: "list_all known_severity (checkCommonIssues c)"
  unfolding checkCommonIssues_def Let_def
  by (simp add: each_line_all span_scan_known console_log_check_def todo_check_def known_severity_def)

lemma checkSecurity_known: "list_all known_severity (checkSecurity c)"
  unfolding checkSecurity_def
  by (simp add: each_line_all secret_check_def list_all_concat_map secret_issue_def eval_check_def known_severity_def)

lemma checkPerformance_known: "list_all known_severity (checkPerformance c)"
  unfolding checkPerformance_def Let_def
  by (simp add: each_line_all sync_check_def list_all_concat_map loop_scan_known known_severity_def)

lemma checkMaintainability_known: "list_all known_severity (checkMaintainability c)"
  unfolding checkMaintainability_def Let_def
  by (simp add: each_line_all magic_number_check_def parameter_list_check_def list_all_concat_map known_severity_def Let_def)

lemma analyzeFiles_known: "list_all known_severity (flatten_issues (analyzeFiles codeFiles))"
proof -
  have one: "list_all known_severity (fa_issues fa)" if "fa \<in> set (analyze_one fc)" for fa fc
    using that
    by (auto simp: analyze_one_def checkCommonIssues_known checkSecurity_known
        checkPerformance_known checkMaintainability_known split: option.splits)
  have "list_all known_severity (fa_issues fa)" if "fa \<in> set (analyzeFiles codeFiles)" for fa
    using that one by (auto simp: analyzeFiles_def)
  then show ?thesis
    by (auto simp: flatten_issues_def list_all_iff known_severity_def)
qed

lemma count_by_severity:
  "list_all known_severity is \<Longrightarrow>
   length (filter (\<lambda>i. severity i = ''high'') is) + length (filter (\<lambda>i. severity i = ''medium'') is)
   + length (filter (\<lambda>i. severity i = ''low'') is) + length (filter (\<lambda>i. severity i = ''info'') is)
   = length is"
  by (induction "is") (auto simp: known_severity_def)

lemma pattern_issues_reported: "list_all reported_severity (pattern_issues c)"
  by (auto simp: pattern_issues_def patterns_def issue_of_match_def Let_def reported_severity_def
      list_all_iff)

lemma style_issues_reported: "list_all reported_severity (style_issues fi)"
  by (simp add: style_issues_def Let_def reported_severity_def)

lemma analyzeFile_reported: "list_all reported_severity (collect_issues (analyzeFile fp ext rr))"
proof (cases rr)
  case (ReadError msg)
  then show ?thesis by (simp add: analyzeFile_def collect_issues_def analysis_issues_def)
next
  case (ReadOk c sz)
  define fi where "fi = \<lparr> path = fp, fsize = sz, extension = ext,
                   lines = length (split_nl c), content = take 10000 c \<rparr>"
  have "list_all reported_severity (issues (performStaticAnalysis fi))"
    by (simp add: performStaticAnalysis_def fileInfo.defs file_analysis.defs
        pattern_issues_reported style_issues_reported)
  then have "list_all reported_severity
      (map (\<lambda>i. i\<lparr> s_file := Some (path (performStaticAnalysis fi)) \<rparr>) (issues (performStaticAnalysis fi)))"
    by (simp add: list_all_iff reported_severity_def)
  then show ?thesis using ReadOk
    by (simp add: analyzeFile_def collect_issues_def analysis_issues_def analysis_path_def fi_def)
qed

lemma analyze_all_reported:
  "list_all reported_severity (concat (map collect_issues (analyze_all files)))"
  by (simp add: analyze_all_def list_all_iff) (use analyzeFile_reported in \<open>auto simp: list_all_iff\<close>)

lemma reported_rank: "reported_severity i \<Longrightarrow> severityOrder (s_severity i) = Some (severity_rank i)"
  by (auto simp: reported_severity_def severity_rank_def severityOrder_def)

lemma known_rank2: "known_severity i \<Longrightarrow> severityOrder2 (severity i) = Some (severity_rank2 i)"
  by (auto simp: known_severity_def severity_rank2_def severityOrder2_def)

lemma count_reported:
  "list_all reported_severity is \<Longrightarrow>
   length (filter (\<lambda>i. s_severity i = ''CRITICAL'') is) + length (filter (\<lambda>i. s_severity i = ''HIGH'') is)
   + length (filter (\<lambda>i. s_severity i = ''MEDIUM'') is) + length (filter (\<lambda>i. s_severity i = ''LOW'') is)
   = length is"
  by (induction "is") (auto simp: reported_severity_def)

subsection \<open>Maintainability score\<close>

lemma score_chain:
  fixes b1 b2 b3 b4 b5 b6 :: bool
  shows "(let sc = (10 :: int);
          sc = (if b1 then sc - 2 else sc);
          sc = (if b2 then sc - 3 else sc);
          sc = (if b3 then sc - 2 else sc);
          sc = (if b4 then sc + 1 else sc);
          sc = (if b5 then sc - 1 else sc);
          sc = (if b6 then sc - 2 else sc)
      in max 1 (min 10 sc))
    = max 1 (min 10
       (10 - (if b1 then 2 else 0) - (if b2 then 3 else 0)
          - (if b3 then 2 else 0) + (if b4 then 1 else 0)
          - (if b5 then 1 else 0) - (if b6 then 2 else 0)))"
  by (cases b1; cases b2; cases b3; cases b4; cases b5; cases b6) simp_all

lemma clamp_range: "1 \<le> max 1 (min 10 (x :: int)) \<and> max 1 (min 10 x) \<le> 10"
  by simp

lemma spec_score_range: "1 \<le> spec_score n r a \<and> spec_score n r a \<le> 10"
  unfolding spec_score_def by (rule clamp_range)

lemma assessMaintainability_score:
  "score (assessMaintainability c fi)
     = spec_score (lines fi)
         (real (length (filter is_comment_line (split_nl c))) / real (length (split_nl c)))
         (real (length c) / real (length (split_nl c)))"
proof -
  have "score (assessMaintainability c fi) =
     (let sc = (10 :: int);
          sc = (if lines fi > 500 then sc - 2 else sc);
          sc = (if lines fi > 1000 then sc - 3 else sc);
          sc = (if real (length (filter is_comment_line (split_nl c))) / real (length (split_nl c)) < 1 / 10 then sc - 2 else sc);
          sc = (if real (length (filter is_comment_line (split_nl c))) / real (length (split_nl c)) > 3 / 10 then sc + 1 else sc);
          sc = (if real (length c) / real (length (split_nl c)) > 120 then sc - 1 else sc);
          sc = (if real (length c) / real (length (split_nl c)) > 200 then sc - 2 else sc)
      in max 1 (min 10 sc))"
    unfolding assessMaintainability_def Let_def by (simp only: maintainability_t.simps)
  then show ?thesis
    unfolding spec_score_def by (simp only: score_chain)
qed

lemma assessMaintainability_ratios:
  "commentRatio (assessMaintainability c fi)
     = real (length (filter is_comment_line (split_nl c))) / real (length (split_nl c))
   \<and> avgLineLength (assessMaintainability c fi) = real (length c) / real (length (split_nl c))"
  unfolding assessMaintainability_def Let_def by (simp only: maintainability_t.simps)

text \<open>
  Claim C9. The score of \<open>assessMaintainability\<close> is the formula of the specification
  (\<open>spec_score\<close>: from 10, minus 2 above 500 lines and 3 more above 1000, minus 2 for a
  comment ratio below 0.10, plus 1 above 0.30, minus 1 for an average line length above 120
  and 2 more above 200, clamped to 1..10), taken at the line count of the whole file, at the
  share of comment lines among the lines of the analyzed content and at the characters per
  line of that content.
\<close>

theorem maintainability_score_formula:
  "score (assessMaintainability c fi)
     = spec_score (lines fi) (commentRatio (assessMaintainability c fi))
         (avgLineLength (assessMaintainability c fi))
   \<and> commentRatio (assessMaintainability c fi)
     = real (length (filter is_comment_line (split_nl c))) / real (length (split_nl c))
   \<and> avgLineLength (assessMaintainability c fi) = real (length c) / real (length (split_nl c))
   \<and> 1 \<le> score (assessMaintainability c fi) \<and> score (assessMaintainability c fi) \<le> 10"
  using assessMaintainability_score[of c fi] assessMaintainability_ratios[of c fi]
    spec_score_range[of "lines fi" "real (length (filter is_comment_line (split_nl c))) / real (length (split_nl c))"
         "real (length c) / real (length (split_nl c))"]
  by (simp only:)

subsection \<open>Sorting by severity\<close>


lemma array_sort_Cons: "array_sort cmp (x # xs) = insert_sorted cmp x (array_sort cmp xs)"
  by (simp add: array_sort_def)

lemma array_sort_Nil: "array_sort cmp [] = []"
  by (simp add: array_sort_def)

lemma set_insert_sorted: "set (insert_sorted cmp x ys) = insert x (set ys)"
  by (induction ys) auto

lemma set_array_sort: "set (array_sort cmp xs) = set xs"
  by (induction xs) (simp_all add: array_sort_Nil array_sort_Cons set_insert_sorted)

lemma length_insert_sorted: "length (insert_sorted cmp x ys) = Suc (length ys)"
  by (induction ys) auto

lemma length_array_sort: "length (array_sort cmp xs) = length xs"
  by (induction xs) (simp_all add: array_sort_Nil array_sort_Cons length_insert_sorted)


lemma insert_sorted_insort:
  assumes "\<And>y. y \<in> set (x # ys) \<Longrightarrow> k y = Some (r y)"
  shows "insert_sorted (\<lambda>a b. minus_numbers (k a) (k b)) x ys = insort_key r x ys"
  using assms by (induction ys) (auto simp: comes_first_def minus_numbers_def)

lemma array_sort_sort_key:
  assumes "\<And>y. y \<in> set xs \<Longrightarrow> k y = Some (r y)"
  shows "array_sort (\<lambda>a b. minus_numbers (k a) (k b)) xs = sort_key r xs"
  using assms
proof (induction xs)
  case Nil
  show ?case by (simp add: array_sort_Nil)
next
  case (Cons x xs)
  have "insert_sorted (\<lambda>a b. minus_numbers (k a) (k b)) x (sort_key r xs) = insort_key r x (sort_key r xs)"
    by (rule insert_sorted_insort) (use Cons.prems in auto)
  with Cons show ?case by (simp add: array_sort_Cons)
qed


lemma report_issues_eq:
  "report_issues (generateReviewReport as) =
     array_sort (\<lambda>a b. minus_numbers (severityOrder (s_severity a)) (severityOrder (s_severity b)))
       (concat (map collect_issues as))"
  by (simp add: generateReviewReport_def Let_def)

lemma report_issues_sort_key:
  "report_issues (generateReviewReport (analyze_all files))
     = sort_key severity_rank (concat (map collect_issues (analyze_all files)))"
  unfolding report_issues_eq
  by (rule array_sort_sort_key[where k = "\<lambda>i. severityOrder (s_severity i)"])
     (use analyze_all_reported[of files] reported_rank in \<open>auto simp: list_all_iff\<close>)

lemma reviewCode_issues_sort_key:
  "reviewCode_issues codeFiles = sort_key severity_rank2 (flatten_issues (analyzeFiles codeFiles))"
  unfolding reviewCode_issues_def identifyIssues_def
  by (rule array_sort_sort_key[where k = "\<lambda>i. severityOrder2 (severity i)"])
     (use analyzeFiles_known[of codeFiles] known_rank2 in \<open>auto simp: list_all_iff\<close>)


subsection \<open>Summary counts\<close>

lemma push_to_total:
  "sum_list (map (\<lambda>g. length (snd g)) (push_to k i acc)) = Suc (sum_list (map (\<lambda>g. length (snd g)) acc))"
  by (induction acc) auto

lemma foldl_push_total:
  "sum_list (map (\<lambda>g. length (snd g)) (foldl (\<lambda>acc i. push_to (category i) i acc) acc is))
   = sum_list (map (\<lambda>g. length (snd g)) acc) + length is"
  by (induction "is" arbitrary: acc) (simp_all add: push_to_total)

lemma byCategory_total: "sum_list (map (\<lambda>g. length (snd g)) (byCategory is)) = length is"
  by (simp add: byCategory_def foldl_push_total)

text \<open>
  Claim C3. The counts per severity add up to the total: the four counts of the summary of
  \<open>generateReviewReport\<close> (no analysis emits INFO, which it does not count) and the four
  of \<open>getStats\<close>. The groups of \<open>generateReport\<close>, one per category, hold as many
  issues together as there are issues.
\<close>

theorem summary_counts_add_up:
  "criticalIssues (summary (generateReviewReport (analyze_all files)))
     + highIssues (summary (generateReviewReport (analyze_all files)))
     + mediumIssues (summary (generateReviewReport (analyze_all files)))
     + lowIssues (summary (generateReviewReport (analyze_all files)))
     = totalIssues (summary (generateReviewReport (analyze_all files)))
   \<and> totalIssues (summary (generateReviewReport (analyze_all files)))
     = length (report_issues (generateReviewReport (analyze_all files)))
   \<and> high (getStats (reviewCode_issues codeFiles)) + medium (getStats (reviewCode_issues codeFiles))
     + low (getStats (reviewCode_issues codeFiles)) + info (getStats (reviewCode_issues codeFiles))
     = total (getStats (reviewCode_issues codeFiles))
   \<and> total (getStats (reviewCode_issues codeFiles)) = length (reviewCode_issues codeFiles)
   \<and> sum_list (map (\<lambda>g. length (snd g)) (byCategory (reviewCode_issues codeFiles)))
     = length (reviewCode_issues codeFiles)"
proof -
  have r: "list_all reported_severity (report_issues (generateReviewReport (analyze_all files)))"
    unfolding report_issues_sort_key using analyze_all_reported[of files] by (simp add: list_all_iff)
  have k: "list_all known_severity (reviewCode_issues codeFiles)"
    unfolding reviewCode_issues_sort_key using analyzeFiles_known[of codeFiles] by (simp add: list_all_iff)
  have "criticalIssues (summary (generateReviewReport (analyze_all files)))
     + highIssues (summary (generateReviewReport (analyze_all files)))
     + mediumIssues (summary (generateReviewReport (analyze_all files)))
     + lowIssues (summary (generateReviewReport (analyze_all files)))
     = totalIssues (summary (generateReviewReport (analyze_all files)))"
    using count_reported[OF r] by (simp add: generateReviewReport_def Let_def)
  moreover have "totalIssues (summary (generateReviewReport (analyze_all files)))
     = length (report_issues (generateReviewReport (analyze_all files)))"
    by (simp add: generateReviewReport_def Let_def)
  moreover have "high (getStats (reviewCode_issues codeFiles)) + medium (getStats (reviewCode_issues codeFiles))
     + low (getStats (reviewCode_issues codeFiles)) + info (getStats (reviewCode_issues codeFiles))
     = total (getStats (reviewCode_issues codeFiles))"
    using count_by_severity[OF k] by (simp add: getStats_def)
  moreover have "total (getStats (reviewCode_issues codeFiles)) = length (reviewCode_issues codeFiles)"
    by (simp add: getStats_def)
  ultimately show ?thesis by (simp add: byCategory_total)
qed

subsection \<open>Static analysis reads a prefix\<close>

lemma first_some_SomeD: "first_some f xs = Some y \<Longrightarrow> \<exists>x\<in>set xs. f x = Some y"
  by (induction xs) (auto split: option.splits)

lemma run_length_le: "run_length c s \<le> length s"
  by (induction s) auto

lemma lit_at_length: "lit_at ci l s p \<Longrightarrow> p + length l \<le> length s \<or> l = []"
proof -
  assume a: "lit_at ci l s p"
  have "length (take (length l) (drop p s)) = length l"
  proof (cases ci)
    case True
    with a have "map canonicalize (take (length l) (drop p s)) = map canonicalize l"
      by (simp add: lit_at_def)
    then show ?thesis by (metis length_map)
  next
    case False
    with a show ?thesis by (simp add: lit_at_def)
  qed
  then show ?thesis by (cases l) (auto simp: min_def split: if_splits)
qed

lemma m_items_bounds:
  "m_items its ci s p = Some e \<Longrightarrow> p \<le> length s \<Longrightarrow> p \<le> e \<and> e \<le> length s"
proof (induction its arbitrary: p)
  case Nil
  then show ?case by simp
next
  case (Cons it its)
  show ?case
  proof (cases it)
    case (Lit l)
    with Cons.prems have la: "lit_at ci l s p" and r: "m_items its ci s (p + length l) = Some e"
      by (auto split: if_splits)
    from lit_at_length[OF la] Cons.prems(2) have "p + length l \<le> length s" by auto
    from Cons.IH[OF r this] show ?thesis by simp
  next
    case (Rep c mn mx)
    define hi where "hi = (case mx of None \<Rightarrow> run_length c (drop p s) | Some k \<Rightarrow> min (run_length c (drop p s)) k)"
    from Cons.prems Rep have "first_some (\<lambda>k. m_items its ci s (p + k)) (rev [mn..<Suc hi]) = Some e"
      by (auto simp: Let_def hi_def split: if_splits)
    from first_some_SomeD[OF this] obtain k where kin: "k \<in> set (rev [mn..<Suc hi])"
      and r: "m_items its ci s (p + k) = Some e"
      by blast
    from kin have k: "k \<le> hi" by auto
    have "hi \<le> run_length c (drop p s)" by (simp add: hi_def split: option.splits)
    also have "\<dots> \<le> length s - p" using run_length_le[of c "drop p s"] by simp
    finally have "p + k \<le> length s" using k Cons.prems(2) by simp
    from Cons.IH[OF r this] show ?thesis by simp
  next
    case Bol
    with Cons show ?thesis by (auto split: if_splits)
  next
    case Wb
    with Cons show ?thesis by (auto split: if_splits)
  qed
qed

lemma rx_at_bounds: "rx_at r s p = Some e \<Longrightarrow> p \<le> length s \<Longrightarrow> p \<le> e \<and> e \<le> length s"
  unfolding rx_at_def by (drule first_some_SomeD) (auto dest: m_items_bounds)

lemma scan_matches_sound:
  "(b, e) \<in> set (scan_matches r s li ps) \<Longrightarrow> b \<in> set ps \<and> rx_at r s b = Some e"
  by (induction ps arbitrary: li) (auto split: if_splits option.splits)

lemma matchAll_bounds: "(b, e) \<in> set (matchAll r s) \<Longrightarrow> b \<le> e \<and> e \<le> length s"
proof -
  assume "(b, e) \<in> set (matchAll r s)"
  then have "b \<in> set [0..<Suc (length s)]" and "rx_at r s b = Some e"
    unfolding matchAll_def by (auto dest: scan_matches_sound)
  then show ?thesis using rx_at_bounds[of r s b e] by auto
qed

lemma pattern_issues_located: "list_all (located_in c 10000) (pattern_issues (take 10000 c))"
proof -
  have "located_in c 10000 i" if "i \<in> set (pattern_issues (take 10000 c))" for i
  proof -
    from that obtain r b e where m: "(b, e) \<in> set (matchAll (pattern r) (take 10000 c))"
      and i: "i = issue_of_match r (take 10000 c) (b, e)"
      by (auto simp: pattern_issues_def)
    from matchAll_bounds[OF m] have be: "b \<le> e" and e: "e \<le> min 10000 (length c)"
      by auto
    have b10: "b \<le> 10000" using be e by simp
    have tb: "take b (take 10000 c) = take b c" using b10 by (simp add: min_absorb1)
    have "drop b (take 10000 c) = take (10000 - b) (drop b c)" by (simp add: drop_take)
    moreover have "e - b \<le> 10000 - b" using be e by linarith
    ultimately have code: "take (e - b) (drop b (take 10000 c)) = take (e - b) (drop b c)"
      by (simp add: min_absorb1)
    have fields: "s_line i = length (split_nl (take b c))
       \<and> s_column i = length (last (split_nl (take b c))) + 1
       \<and> s_code i = Some (take (e - b) (drop b c))"
      using i tb code by (simp add: issue_of_match_def Let_def matched_text_def)
    have bin: "b \<in> set [0..<Suc (min 10000 (length c))]" using be e by auto
    have ein: "e \<in> set [b..<Suc (min 10000 (length c))]" using be e by auto
    from fields bin ein show ?thesis
      unfolding located_in_def list_ex_iff by blast
  qed
  then show ?thesis by (simp add: list_all_iff)
qed

text \<open>
  Claim C10. For a file within the size ceiling, \<open>analyzeFile\<close> hands the first 10,000
  characters to the static analysis: the pattern issues are those of that prefix, each one
  the line, column and text of a match that ends within it, so nothing after the prefix
  is reported; the line count and the size of the result are those of the whole file.
\<close>

theorem static_analysis_sees_prefix_only:
  assumes "length c \<le> 50000"
  shows "\<exists>fa. analyzeFile filePath ext (ReadOk c sz) = Analyzed fa
          \<and> content fa = take 10000 c
          \<and> lines fa = length (split_nl c)
          \<and> fsize fa = sz
          \<and> issues fa = pattern_issues (take 10000 c)
              @ style_issues \<lparr> path = filePath, fsize = sz, extension = ext,
                               lines = length (split_nl c), content = take 10000 c \<rparr>
          \<and> list_all (located_in c 10000) (pattern_issues (take 10000 c))"
  using assms pattern_issues_located[of c]
  by (simp add: analyzeFile_def performStaticAnalysis_def fileInfo.defs file_analysis.defs)

lemma scan_matches_none: "(\<And>p. rx_at r s p = None) \<Longrightarrow> scan_matches r s li ps = []"
  by (induction ps arbitrary: li) simp_all

lemma lit_at_replicate:
  assumes "if ci then canonicalize x \<noteq> canonicalize y else x \<noteq> y"
  shows "\<not> lit_at ci (y # l) (replicate n x) p"
proof
  assume a: "lit_at ci (y # l) (replicate n x) p"
  have t: "take (length (y # l)) (drop p (replicate n x)) = replicate (min (Suc (length l)) (n - p)) x"
    by simp
  show False
  proof (cases ci)
    case True
    with a t have "replicate (min (Suc (length l)) (n - p)) (canonicalize x) = canonicalize y # map canonicalize l"
      by (simp add: lit_at_def del: take_replicate drop_replicate)
    then have "canonicalize x = canonicalize y"
      by (cases "min (Suc (length l)) (n - p)") simp_all
    with True assms show False by simp
  next
    case False
    with a t have "replicate (min (Suc (length l)) (n - p)) x = y # l"
      by (simp add: lit_at_def del: take_replicate drop_replicate)
    then have "x = y"
      by (cases "min (Suc (length l)) (n - p)") simp_all
    with False assms show False by simp
  qed
qed

lemma canonical_letters:
  "canonicalize (CHR ''a'') \<noteq> canonicalize (CHR ''T'')
   \<and> canonicalize (CHR ''a'') \<noteq> canonicalize (CHR ''F'')
   \<and> canonicalize (CHR ''a'') \<noteq> canonicalize (CHR ''H'')"
  by code_simp

lemma patterns_miss_filler:
  "r \<in> set patterns \<Longrightarrow> rx_at (pattern r) (replicate n (CHR ''a'')) p = None"
  using canonical_letters
  by (auto simp: patterns_def rx_at_def lit_at_replicate)

lemma pattern_issues_filler: "pattern_issues (replicate n (CHR ''a'')) = []"
  by (simp add: pattern_issues_def matchAll_def scan_matches_none patterns_miss_filler)

text \<open>
  A file of 10,000 letters followed by \<open>eval(x)\<close>: the call lies after the prefix and
  no issue is reported, while the size is that of the whole file.
\<close>

theorem static_analysis_sees_prefix_only_witness:
  "length beyond_prefix \<le> 50000
   \<and> length beyond_prefix = 10007
   \<and> (\<exists>fa. analyzeFile ''big.py'' ''.py'' (ReadOk beyond_prefix 10007) = Analyzed fa
          \<and> content fa = replicate 10000 (CHR ''a'')
          \<and> lines fa = 1
          \<and> fsize fa = 10007
          \<and> issues fa = [])"
proof -
  have len: "length beyond_prefix = 10007" by (simp add: beyond_prefix_def)
  then have h: "length beyond_prefix \<le> 50000" by simp
  have pre: "take 10000 beyond_prefix = replicate 10000 (CHR ''a'')"
    by (simp add: beyond_prefix_def)
  have one: "split_nl beyond_prefix = [beyond_prefix]"
    by (rule split_nl_single) (simp add: beyond_prefix_def)
  from static_analysis_sees_prefix_only[OF h, of "''big.py''" "''.py''" 10007]
  obtain fa where fa: "analyzeFile ''big.py'' ''.py'' (ReadOk beyond_prefix 10007) = Analyzed fa"
    "content fa = take 10000 beyond_prefix" "lines fa = length (split_nl beyond_prefix)"
    "fsize fa = 10007"
    "issues fa = pattern_issues (take 10000 beyond_prefix)
              @ style_issues \<lparr> path = ''big.py'', fsize = 10007, extension = ''.py'',
                               lines = length (split_nl beyond_prefix), content = take 10000 beyond_prefix \<rparr>"
    by blast
  have "issues fa = []"
    unfolding fa(5) pre by (simp add: pattern_issues_filler style_issues_def)
  with fa pre one len h show ?thesis by simp
qed

subsection \<open>One function span at a time\<close>

lemma span_scan_snoc: "span_scan (ls @ [l]) = span_step (length ls, l) (span_scan ls)"
  by (simp add: span_scan_def enumerate_append_eq)

lemma span_step_on_declaration:
  assumes "fst (test_sticky functionRegex l (lastIndex st))"
  shows "functionStartLine (span_step (index, l) st) = int index + 1
       \<and> braceCount (span_step (index, l) st)
           = int (count_char (CHR ''{'') l) - int (count_char (CHR ''}'') l)
       \<and> currentFunction (span_step (index, l) st) = Some (trim l)
       \<and> long_functions (span_step (index, l) st) = long_functions st"
proof (cases "trim l = []")
  case True
  then have "count_char (CHR ''{'') l = 0 \<and> count_char (CHR ''}'') l = 0"
    using trim_empty_all_space[OF True] brace_not_space
    by (auto intro!: count_char_zero)
  with True assms show ?thesis
    by (simp add: span_step_def Let_def truthy_def)
next
  case False
  with assms show ?thesis
    by (simp add: span_step_def Let_def truthy_def)
qed

text \<open>
  The claim C1 as the specification states it fails. After \<open>function outer() {\<close> and one
  statement the span is open with start line 1 and balance 1; the declaration
  \<open>function inner() {\<close> on line 3 moves the start line to 3 and leaves the balance at 1,
  where an untouched span would have start line 1 and balance 2.
\<close>

theorem inner_declaration_restarts_counterexample:
  "truthy (currentFunction (span_scan (take 2 nested_decl)))
   \<and> functionStartLine (span_scan (take 2 nested_decl)) = 1
   \<and> braceCount (span_scan (take 2 nested_decl)) = 1
   \<and> fst (test_sticky functionRegex (nested_decl ! 2) (lastIndex (span_scan (take 2 nested_decl))))
   \<and> functionStartLine (span_scan nested_decl) = 3
   \<and> braceCount (span_scan nested_decl) = 1"
  by code_simp

text \<open>
  Claim C1, amended. One span is tracked at a time, and every declaration line starts it
  anew, also while a span is open: whenever \<open>functionRegex.test\<close> accepts the line \<open>l\<close>
  that follows the lines \<open>ls\<close>, the start line becomes the line of \<open>l\<close>, the brace
  balance restarts at zero and then counts the braces of \<open>l\<close> only, the span is named
  after \<open>l\<close>, and nothing is reported on that line.
\<close>

theorem declaration_restarts_span:
  assumes "fst (test_sticky functionRegex l (lastIndex (span_scan ls)))"
  shows "functionStartLine (span_scan (ls @ [l])) = int (length ls) + 1
       \<and> braceCount (span_scan (ls @ [l]))
           = int (count_char (CHR ''{'') l) - int (count_char (CHR ''}'') l)
       \<and> currentFunction (span_scan (ls @ [l])) = Some (trim l)
       \<and> long_functions (span_scan (ls @ [l])) = long_functions (span_scan ls)"
  unfolding span_scan_snoc using assms by (rule span_step_on_declaration)

text \<open>The inner declaration of the sample, met while the span of the outer one is open.\<close>

theorem declaration_restarts_span_witness:
  "fst (test_sticky functionRegex (nested_decl ! 2) (lastIndex (span_scan (take 2 nested_decl))))
   \<and> functionStartLine (span_scan (take 2 nested_decl @ [nested_decl ! 2])) = 3
   \<and> braceCount (span_scan (take 2 nested_decl @ [nested_decl ! 2])) = 1"
proof -
  have h: "fst (test_sticky functionRegex (nested_decl ! 2) (lastIndex (span_scan (take 2 nested_decl))))"
    by code_simp
  have c: "int (count_char (CHR ''{'') (nested_decl ! 2)) - int (count_char (CHR ''}'') (nested_decl ! 2)) = 1"
    by code_simp
  have n: "length (take 2 nested_decl) = 2" by (simp add: nested_decl_def)
  from declaration_restarts_span[OF h] h c n show ?thesis by simp
qed

subsection \<open>A long function is reported once\<close>

lemma no_declaration_test: "no_declaration l \<Longrightarrow> test_sticky functionRegex l li = (False, 0)"
proof (cases "li \<le> length l")
  case True
  assume "no_declaration l"
  with True have "rx_exec functionRegex l li = None"
    by (auto simp: no_declaration_def list_all_iff)
  then show ?thesis by (simp add: test_sticky_def)
next
  case False
  then have "[li..<Suc (length l)] = []" by simp
  then show ?thesis by (simp add: test_sticky_def rx_exec_def)
qed

lemma idle_step:
  "currentFunction st = None \<Longrightarrow> no_declaration l \<Longrightarrow> span_step (i, l) st = st\<lparr> lastIndex := 0 \<rparr>"
  by (simp add: span_step_def Let_def no_declaration_test truthy_def)

lemma idle_fold:
  "currentFunction st = None \<Longrightarrow> \<forall>l\<in>set ls. no_declaration l \<Longrightarrow> ls \<noteq> [] \<Longrightarrow>
   fold span_step (enumerate n ls) st = st\<lparr> lastIndex := 0 \<rparr>"
proof (induction ls arbitrary: n st)
  case Nil
  then show ?case by simp
next
  case (Cons l ls)
  show ?case
  proof (cases "ls = []")
    case True
    with Cons.prems show ?thesis by (simp add: idle_step)
  next
    case False
    have "fold span_step (enumerate (Suc n) ls) (st\<lparr> lastIndex := 0 \<rparr>) = st\<lparr> lastIndex := 0 \<rparr>\<lparr> lastIndex := 0 \<rparr>"
      by (rule Cons.IH) (use Cons.prems False in auto)
    with Cons.prems show ?thesis by (simp add: idle_step)
  qed
qed

lemma first_some_None: "(\<And>x. f x = None) \<Longrightarrow> first_some f xs = None"
  by (induction xs) simp_all

lemma space_not_word: "isWhiteSpace c \<Longrightarrow> \<not> isWordChar c"
  by (auto simp: isWhiteSpace_def isWordChar_def Let_def)

lemma run_length_zero: "\<forall>x\<in>set s. \<not> c x \<Longrightarrow> run_length c (drop p s) = 0"
proof -
  assume a: "\<forall>x\<in>set s. \<not> c x"
  show ?thesis
  proof (cases "drop p s")
    case Nil
    then show ?thesis by simp
  next
    case (Cons y ys)
    then have "y \<in> set s" by (metis in_set_dropD list.set_intros(1))
    with a Cons show ?thesis by simp
  qed
qed

lemma lit_at_member:
  assumes "lit_at False (y # l) s p"
  shows "y \<in> set s"
proof -
  from assms have "take (Suc (length l)) (drop p s) = y # l" by (simp add: lit_at_def)
  then have "y \<in> set (take (Suc (length l)) (drop p s))" by simp
  then show ?thesis by (meson in_set_dropD in_set_takeD)
qed

lemma letters_not_space:
  "\<not> isWhiteSpace (CHR ''f'') \<and> \<not> isWhiteSpace (CHR ''c'')"
  by code_simp

lemma functionRegex_blank:
  assumes "\<forall>x\<in>set s. isWhiteSpace x"
  shows "rx_at functionRegex s p = None"
proof -
  have f: "\<not> lit_at False (CHR ''f'' # l) s q" for l q
    using lit_at_member[of "CHR ''f''" l s q] assms letters_not_space by auto
  have c: "\<not> lit_at False (CHR ''c'' # l) s q" for l q
    using lit_at_member[of "CHR ''c''" l s q] assms letters_not_space by auto
  have w: "run_length isWordChar (drop q s) = 0" for q
    by (rule run_length_zero) (use assms space_not_word in auto)
  have third: "m_items [Bol, ws0, w1, ws0, Lit '':'', ws0, Lit ''function''] False s p = None"
    by (simp add: ws0_def w1_def w Let_def first_some_None)
  show ?thesis
    using f c third by (simp add: rx_at_def functionRegex_def ws1_def w1_def ws0_def)
qed

lemma declaration_not_blank:
  assumes "fst (test_sticky functionRegex l li)"
  shows "trim l \<noteq> []"
proof
  assume "trim l = []"
  then have "\<forall>x\<in>set l. isWhiteSpace x" by (rule trim_empty_all_space)
  then have "rx_exec functionRegex l li = None"
    by (simp add: rx_exec_def functionRegex_blank first_some_None)
  with assms show False by (simp add: test_sticky_def)
qed

lemma quiet_step:
  assumes "truthy (currentFunction st)" and "no_declaration l"
    and "\<not> (braceCount st + brace_delta l = 0 \<and> int i - functionStartLine st + 1 > 50)"
  shows "span_step (i, l) st = st\<lparr> lastIndex := 0, braceCount := braceCount st + brace_delta l \<rparr>"
  using assms
  by (auto simp: span_step_def Let_def no_declaration_test brace_delta_def)

lemma quiet_fold:
  "truthy (currentFunction st) \<Longrightarrow> \<forall>l\<in>set ls. no_declaration l
   \<Longrightarrow> stays_quiet (functionStartLine st) (braceCount st) n ls \<Longrightarrow> ls \<noteq> [] \<Longrightarrow>
   fold span_step (enumerate n ls) st
     = st\<lparr> lastIndex := 0, braceCount := braceCount st + sum_list (map brace_delta ls) \<rparr>"
proof (induction ls arbitrary: n st)
  case Nil
  then show ?case by simp
next
  case (Cons l ls)
  define st' where "st' = st\<lparr> lastIndex := 0, braceCount := braceCount st + brace_delta l \<rparr>"
  have step: "span_step (n, l) st = st'"
    unfolding st'_def using Cons.prems by (intro quiet_step) auto
  show ?case
  proof (cases "ls = []")
    case True
    with step show ?thesis by (simp add: st'_def)
  next
    case False
    have "fold span_step (enumerate (Suc n) ls) st'
        = st'\<lparr> lastIndex := 0, braceCount := braceCount st' + sum_list (map brace_delta ls) \<rparr>"
      by (rule Cons.IH) (use Cons.prems False in \<open>auto simp: st'_def\<close>)
    with step show ?thesis by (simp add: st'_def add.assoc)
  qed
qed

lemma stays_open_quiet: "stays_open b ls \<Longrightarrow> stays_quiet start b i ls"
  by (induction ls arbitrary: b i) auto

lemma stays_open_replicate: "brace_delta l = 0 \<Longrightarrow> b \<noteq> 0 \<Longrightarrow> stays_open b (replicate n l)"
  by (induction n) simp_all

lemma stays_open_append:
  "stays_open b (xs @ ys) = (stays_open b xs \<and> stays_open (b + sum_list (map brace_delta xs)) ys)"
  by (induction xs arbitrary: b) (auto simp: add.assoc)

lemma sample_lines:
  "no_declaration ''// header'' \<and> no_declaration ''  doWork();'' \<and> no_declaration ''    doWork();''
   \<and> no_declaration ''  if (ready) {'' \<and> no_declaration ''  }''
   \<and> no_declaration ''}'' \<and> no_declaration ''// footer''
   \<and> fst (test_sticky functionRegex ''function longFunction() {'' 0)"
  by code_simp

lemma sample_deltas:
  "brace_delta ''function longFunction() {'' = 1 \<and> brace_delta ''  if (ready) {'' = 1
   \<and> brace_delta ''    doWork();'' = 0 \<and> brace_delta ''  doWork();'' = 0
   \<and> brace_delta ''  }'' = - 1 \<and> brace_delta ''}'' = - 1 \<and> brace_delta ''// footer'' = 0
   \<and> brace_delta ''  const y = (1 + 2);'' = 0"
  by code_simp

lemma const_steps:
  "span_step (9, ''function longFunction() {'') span_init
     = span_open ''function longFunction() {'' 10 1 21
   \<and> span_step (39, ''  const y = (1 + 2);'') (span_open ''function longFunction() {'' 10 1 0)
     = span_open ''const y = (1 + 2);'' 40 0 13
   \<and> span_step (74, ''}'') (span_open ''const y = (1 + 2);'' 40 0 0)
     = span_open ''const y = (1 + 2);'' 40 (- 1) 0
   \<and> stays_quiet 10 1 10 (replicate 29 ''  doWork();'')
   \<and> stays_quiet 40 0 40 (replicate 34 ''  doWork();'')
   \<and> stays_quiet 40 (- 1) 75 (replicate 45 ''// footer'')"
  by code_simp

lemma span_scan_const_in_body:
  "long_functions (span_scan const_in_body_file) = []"
proof -
  have h: "fold span_step (enumerate 0 (replicate 9 ''// header'')) span_init = span_init"
    using idle_fold[of span_init "replicate 9 ''// header''" 0] sample_lines
    by (simp add: span_init_def)
  have b1: "fold span_step (enumerate 10 (replicate 29 ''  doWork();''))
        (span_open ''function longFunction() {'' 10 1 21)
      = span_open ''function longFunction() {'' 10 1 0"
    using quiet_fold[of "span_open ''function longFunction() {'' 10 1 21" "replicate 29 ''  doWork();''" 10]
      sample_lines sample_deltas const_steps
    by (simp add: span_open_def truthy_def sum_list_replicate)
  have b2: "fold span_step (enumerate 40 (replicate 34 ''  doWork();''))
        (span_open ''const y = (1 + 2);'' 40 0 13)
      = span_open ''const y = (1 + 2);'' 40 0 0"
    using quiet_fold[of "span_open ''const y = (1 + 2);'' 40 0 13" "replicate 34 ''  doWork();''" 40]
      sample_lines sample_deltas const_steps
    by (simp add: span_open_def truthy_def sum_list_replicate)
  have f: "fold span_step (enumerate 75 (replicate 45 ''// footer''))
        (span_open ''const y = (1 + 2);'' 40 (- 1) 0)
      = span_open ''const y = (1 + 2);'' 40 (- 1) 0"
    using quiet_fold[of "span_open ''const y = (1 + 2);'' 40 (- 1) 0" "replicate 45 ''// footer''" 75]
      sample_lines sample_deltas const_steps
    by (simp add: span_open_def truthy_def sum_list_replicate)
  have "span_scan const_in_body_file = span_open ''const y = (1 + 2);'' 40 (- 1) 0"
    unfolding span_scan_def const_in_body_file_def
    using const_steps by (simp add: enumerate_append_eq h b1 b2 f)
  then show ?thesis by (simp add: span_open_def)
qed

text \<open>
  The claim C8 as the specification states it fails. The sample has 120 lines and one
  function, declared on line 10 and closed on line 75, with the statement
  \<open>const y = (1 + 2);\<close> on line 40. \<open>functionRegex\<close> accepts that statement by its
  alternative \<open>const\s+\w+\s*=\s*\(\<close>, so the span restarts at line 40 with balance zero;
  the closing brace of line 75 takes the balance to -1, it never returns to zero, and the
  analyzer reports no Code Complexity issue at all.
\<close>

theorem declaration_like_body_line_counterexample:
  "length const_in_body_file = 120
   \<and> split_nl (join_nl const_in_body_file) = const_in_body_file
   \<and> const_in_body_file ! 9 = ''function longFunction() {''
   \<and> const_in_body_file ! 39 = ''  const y = (1 + 2);''
   \<and> const_in_body_file ! 74 = ''}''
   \<and> filter (\<lambda>f. category f = ''Code Complexity'') (file_issues (join_nl const_in_body_file)) = []"
proof -
  have sj: "split_nl (join_nl const_in_body_file) = const_in_body_file"
    by (rule split_nl_join_nl) (auto simp: const_in_body_file_def)
  have "filter (\<lambda>f. category f = ''Code Complexity'') (file_issues (join_nl const_in_body_file)) = []"
    by (simp add: complexity_issues_of_file sj span_scan_const_in_body)
  with sj show ?thesis by (simp add: const_in_body_file_def nth_append)
qed

text \<open>
  Claim C8, amended. Take a file of 120 lines in which \<open>functionRegex\<close> has a match in
  line 10 and in no other line, and in which the brace balance counted from line 10 on is
  not zero after any of the lines 11 to 74 and is zero after line 75; the body may hold
  nested blocks, and the opening brace may stand on line 10 or below it. The analyzer reports
  exactly one issue of category Code Complexity; it has severity medium and is anchored at
  line 10. The number its message prints is not part of the statement.
\<close>

theorem long_function_reported_once:
  assumes "split_nl c = header @ [decl] @ body @ [closing] @ footer"
    and "length header = 9" and "length body = 64" and "length footer = 45"
    and "\<forall>l\<in>set header. no_declaration l"
    and "fst (test_sticky functionRegex decl 0)"
    and "\<forall>l\<in>set body. no_declaration l"
    and "stays_open (brace_delta decl) body"
    and "no_declaration closing"
    and "brace_delta decl + sum_list (map brace_delta body) + brace_delta closing = 0"
    and "\<forall>l\<in>set footer. no_declaration l"
  shows "length (split_nl c) = 120
       \<and> map (\<lambda>f. (category f, severity f, line f))
           (filter (\<lambda>f. category f = ''Code Complexity'') (file_issues c))
         = [(''Code Complexity'', ''medium'', 10)]"
proof -
  have len: "length (split_nl c) = 120" using assms(1-4) by simp
  have hne: "header \<noteq> []" and bne: "body \<noteq> []" and fne: "footer \<noteq> []"
    using assms(2-4) by auto
  define s0 where "s0 = fold span_step (enumerate 0 header) span_init"
  have s0: "s0 = span_init"
    unfolding s0_def using idle_fold[OF _ assms(5) hne, of span_init 0] by (simp add: span_init_def)
  define s1 where "s1 = span_step (9, decl) s0"
  have s1: "currentFunction s1 = Some (trim decl) \<and> functionStartLine s1 = 10
      \<and> braceCount s1 = brace_delta decl \<and> long_functions s1 = []"
    unfolding s1_def s0
    using span_step_on_declaration[of decl span_init 9] assms(6)
    by (simp add: span_init_def brace_delta_def)
  have tr: "truthy (currentFunction s1)"
    using s1 declaration_not_blank[OF assms(6)] by (simp add: truthy_def)
  define s2 where "s2 = fold span_step (enumerate 10 body) s1"
  have q: "stays_quiet (functionStartLine s1) (braceCount s1) 10 body"
    using s1 assms(8) by (simp add: stays_open_quiet)
  have s2: "s2 = s1\<lparr> lastIndex := 0, braceCount := braceCount s1 + sum_list (map brace_delta body) \<rparr>"
    unfolding s2_def by (rule quiet_fold[OF tr assms(7) q bne])
  define s3 where "s3 = span_step (74, closing) s2"
  have s3: "currentFunction s3 = None \<and> long_functions s3 = [long_function_issue 74 10]"
    unfolding s3_def s2 using s1 tr assms(9,10)
    by (simp add: span_step_def Let_def no_declaration_test brace_delta_def)
  define s4 where "s4 = fold span_step (enumerate 75 footer) s3"
  have s4: "s4 = s3\<lparr> lastIndex := 0 \<rparr>"
    unfolding s4_def using idle_fold[OF _ assms(11) fne, of s3 75] s3 by simp
  have "span_scan (split_nl c) = s4"
    unfolding assms(1) span_scan_def s4_def s3_def s2_def s1_def s0_def
    using assms(2,3) by (simp add: enumerate_append_eq)
  then have "long_functions (span_scan (split_nl c)) = [long_function_issue 74 10]"
    using s4 s3 by simp
  then have "filter (\<lambda>f. category f = ''Code Complexity'') (file_issues c) = [long_function_issue 74 10]"
    by (simp add: complexity_issues_of_file)
  with len show ?thesis by (simp add: long_function_issue_def)
qed

text \<open>
  The sample: nine comment lines, \<open>function longFunction() {\<close> on line 10, a body made of
  an \<open>if\<close> block that holds 62 statements, the closing brace on line 75 and 45 comment
  lines.
\<close>

theorem long_function_reported_once_witness:
  "split_nl (join_nl nested_body_file) = nested_body_file
   \<and> nested_body_file ! 9 = ''function longFunction() {''
   \<and> nested_body_file ! 10 = ''  if (ready) {''
   \<and> nested_body_file ! 74 = ''}''
   \<and> length (split_nl (join_nl nested_body_file)) = 120
   \<and> map (\<lambda>f. (category f, severity f, line f))
        (filter (\<lambda>f. category f = ''Code Complexity'') (file_issues (join_nl nested_body_file)))
      = [(''Code Complexity'', ''medium'', 10)]"
proof -
  have sj: "split_nl (join_nl nested_body_file) = nested_body_file"
    by (rule split_nl_join_nl) (auto simp: nested_body_file_def)
  have parts: "split_nl (join_nl nested_body_file)
     = replicate 9 ''// header'' @ [''function longFunction() {'']
       @ ([''  if (ready) {''] @ replicate 62 ''    doWork();'' @ [''  }'']) @ [''}'']
       @ replicate 45 ''// footer''"
    unfolding sj by (simp add: nested_body_file_def)
  have so: "stays_open (brace_delta ''function longFunction() {'')
      ([''  if (ready) {''] @ replicate 62 ''    doWork();'' @ [''  }''])"
    using sample_deltas by (simp add: stays_open_append stays_open_replicate sum_list_replicate)
  have total: "brace_delta ''function longFunction() {''
      + sum_list (map brace_delta ([''  if (ready) {''] @ replicate 62 ''    doWork();'' @ [''  }'']))
      + brace_delta ''}'' = 0"
    using sample_deltas by (simp add: sum_list_replicate)
  have n9: "nested_body_file ! 9 = ''function longFunction() {''"
    and n10: "nested_body_file ! 10 = ''  if (ready) {''"
    and n74: "nested_body_file ! 74 = ''}''"
    by (simp_all add: nested_body_file_def nth_append)
  from long_function_reported_once[OF parts _ _ _ _ _ _ so _ total] sample_lines sj n9 n10 n74
  show ?thesis by simp
qed

subsection \<open>Hardcoded secrets\<close>

lemma secret_check_line: "list_all (\<lambda>f. line f = index + 1) (secret_check index l)"
  by (simp add: secret_check_def list_all_concat_map secret_issue_def)

lemma findIndex_lower: "- 1 \<le> findIndex P xs"
  by (induction xs) (simp_all add: Let_def)

lemma findIndex_at: "findIndex P xs = int i \<Longrightarrow> i < length xs \<and> P (xs ! i)"
proof (induction xs arbitrary: i)
  case Nil
  then show ?case by simp
next
  case (Cons x xs)
  show ?case
  proof (cases "P x")
    case True
    with Cons.prems show ?thesis by simp
  next
    case False
    with Cons.prems have neg: "\<not> findIndex P xs < 0" and eq: "findIndex P xs + 1 = int i"
      by (auto simp: Let_def split: if_splits)
    then obtain j where j: "i = Suc j" by (cases i) auto
    with eq have "findIndex P xs = int j" by simp
    from Cons.IH[OF this] j show ?thesis by simp
  qed
qed

lemma eval_check_elsewhere:
  assumes "\<not> includes_str (split_nl c ! i) ''eval(''"
  shows "filter (\<lambda>f. line f = i + 1) (eval_check c) = []"
proof (cases "includes_str c ''eval(''")
  case False
  then show ?thesis by (simp add: eval_check_def)
next
  case True
  have "nat (findIndex (\<lambda>l. includes_str l ''eval('') (split_nl c) + 1) \<noteq> i + 1"
  proof
    assume a: "nat (findIndex (\<lambda>l. includes_str l ''eval('') (split_nl c) + 1) = i + 1"
    have "findIndex (\<lambda>l. includes_str l ''eval('') (split_nl c) = int i"
      using a findIndex_lower[of "\<lambda>l. includes_str l ''eval(''" "split_nl c"] by linarith
    from findIndex_at[OF this] assms show False by simp
  qed
  with True show ?thesis by (simp add: eval_check_def)
qed

lemma security_issues_at:
  assumes "i < length (split_nl c)" and "\<not> includes_str (split_nl c ! i) ''eval(''"
  shows "filter (\<lambda>f. category f = ''Security'' \<and> line f = i + 1) (file_issues c)
           = secret_check i (split_nl c ! i)"
proof -
  have "filter (\<lambda>f. category f = ''Security'' \<and> line f = i + 1) (file_issues c)
          = filter (\<lambda>f. line f = i + 1) (filter (\<lambda>f. category f = ''Security'') (file_issues c))"
    by simp
  also have "\<dots> = filter (\<lambda>f. line f = i + 1) (each_line secret_check (split_nl c))
                    @ filter (\<lambda>f. line f = i + 1) (eval_check c)"
    by (simp add: security_issues_of_file checkSecurity_def)
  also have "\<dots> = secret_check i (split_nl c ! i)"
    using each_line_at[of secret_check, OF secret_check_line assms(1)] eval_check_elsewhere[OF assms(2)]
    by simp
  finally show ?thesis .
qed

lemma secret_check_flags:
  "secret_check i l
     = concat (map (\<lambda>b. if b then [secret_issue i] else [])
                (map (\<lambda>p. test p l \<and> \<not> includes_str l ''process.env'') secretPatterns))"
  by (simp add: secret_check_def comp_def)

lemma secret_line_flags:
  "map (\<lambda>p. test p secret_line \<and> \<not> includes_str secret_line ''process.env'') secretPatterns
     = [False, True, False, False]"
  by code_simp

lemma env_line_flags:
  "map (\<lambda>p. test p env_line \<and> \<not> includes_str env_line ''process.env'') secretPatterns
     = [False, False, False, False]"
  by code_simp

lemma no_eval_in_lines:
  "\<not> includes_str secret_line ''eval('' \<and> \<not> includes_str env_line ''eval(''"
  by code_simp

lemma secret_check_guard: "includes_str l ''process.env'' \<Longrightarrow> secret_check i l = []"
  by (simp add: secret_check_def)

lemma guarded_line_facts:
  "test (secretPatterns ! 3) guarded_line \<and> includes_str guarded_line ''process.env''
   \<and> \<not> includes_str guarded_line ''eval(''"
  by code_simp

lemma analyzeFile_issues:
  "length c \<le> 50000 \<Longrightarrow>
   analysis_issues (analyzeFile filePath ext (ReadOk c sz))
     = Some (pattern_issues (take 10000 c)
             @ style_issues \<lparr> path = filePath, fsize = sz, extension = ext,
                              lines = length (split_nl c), content = take 10000 c \<rparr>)"
  by (simp add: analyzeFile_def analysis_issues_def performStaticAnalysis_def fileInfo.defs
      file_analysis.defs)

lemma secret_line_patterns: "pattern_issues secret_line = []"
  by code_simp

lemma secret_line_facts:
  "length secret_line = 27 \<and> filter is_statement (split_nl secret_line) = []
   \<and> CHR 0x0A \<notin> set secret_line"
  by code_simp

text \<open>
  The claim C4 as the specification states it fails on the engine of \<open>performReview\<close>:
  the pattern table of \<open>performStaticAnalysis\<close> has no rule for secrets, and
  \<open>analyzeFile\<close> answers a file that consists of the line
  \<open>const apiKey = "sk-abc123";\<close> with an empty list of issues.
\<close>

theorem no_secret_rule_in_pattern_table_counterexample:
  "pattern_issues secret_line = []
   \<and> analysis_issues (analyzeFile ''config.js'' ''.js'' (ReadOk secret_line 27)) = Some []"
proof -
  have "take 10000 secret_line = secret_line" using secret_line_facts by simp
  then have "analysis_issues (analyzeFile ''config.js'' ''.js'' (ReadOk secret_line 27)) = Some []"
    using secret_line_facts
    by (simp add: analyzeFile_issues secret_line_patterns style_issues_def)
  with secret_line_patterns show ?thesis by simp
qed

text \<open>
  Claim C4, amended. In the engine of \<open>reviewCode\<close>, wherever a file holds the line
  \<open>const apiKey = "sk-abc123";\<close>, the analysis of \<open>analyzeFiles\<close> has exactly one
  Security issue anchored at that line, of severity high. Where the line reads
  \<open>const apiKey = process.env.API_KEY;\<close> instead, it has no Security issue at that line.
  More generally a line that contains \<open>process.env\<close>, and not \<open>eval(\<close>, yields no
  Security issue, also when one of the secret patterns accepts it.
\<close>

theorem hardcoded_secret_finding:
  assumes "i < length (split_nl c)"
  shows "(split_nl c ! i = secret_line \<longrightarrow>
            filter (\<lambda>f. category f = ''Security'' \<and> line f = i + 1) (file_issues c) = [secret_issue i])
       \<and> (split_nl c ! i = env_line \<longrightarrow>
            filter (\<lambda>f. category f = ''Security'' \<and> line f = i + 1) (file_issues c) = [])
       \<and> (includes_str (split_nl c ! i) ''process.env'' \<and> \<not> includes_str (split_nl c ! i) ''eval(''
            \<longrightarrow> filter (\<lambda>f. category f = ''Security'' \<and> line f = i + 1) (file_issues c) = [])
       \<and> severity (secret_issue i) = ''high'' \<and> category (secret_issue i) = ''Security''
       \<and> line (secret_issue i) = i + 1"
proof -
  have a: "filter (\<lambda>f. category f = ''Security'' \<and> line f = i + 1) (file_issues c) = [secret_issue i]"
    if "split_nl c ! i = secret_line"
    using security_issues_at[OF assms] that no_eval_in_lines
    by (simp add: secret_check_flags secret_line_flags)
  have b: "filter (\<lambda>f. category f = ''Security'' \<and> line f = i + 1) (file_issues c) = []"
    if "split_nl c ! i = env_line"
    using security_issues_at[OF assms] that no_eval_in_lines
    by (simp add: secret_check_flags env_line_flags)
  have g: "filter (\<lambda>f. category f = ''Security'' \<and> line f = i + 1) (file_issues c) = []"
    if "includes_str (split_nl c ! i) ''process.env''" "\<not> includes_str (split_nl c ! i) ''eval(''"
    using security_issues_at[OF assms that(2)] that(1) by (simp add: secret_check_guard)
  from a b g show ?thesis by (simp add: secret_issue_def)
qed

text \<open>
  Each line as the second line of a file of three: the literal key, the key read from
  \<open>process.env\<close>, and \<open>const token = "dev" || process.env.TOKEN;\<close>, which the token
  pattern accepts and the \<open>process.env\<close> test silences.
\<close>

theorem hardcoded_secret_finding_witness:
  "filter (\<lambda>f. category f = ''Security'' \<and> line f = 1 + 1)
      (file_issues (join_nl [''// config'', secret_line, ''run();''])) = [secret_issue 1]
   \<and> filter (\<lambda>f. category f = ''Security'' \<and> line f = 1 + 1)
      (file_issues (join_nl [''// config'', env_line, ''run();''])) = []
   \<and> test (secretPatterns ! 3) guarded_line
   \<and> filter (\<lambda>f. category f = ''Security'' \<and> line f = 1 + 1)
      (file_issues (join_nl [''// config'', guarded_line, ''run();''])) = []"
proof -
  have s1: "split_nl (join_nl [''// config'', secret_line, ''run();'']) = [''// config'', secret_line, ''run();'']"
    by code_simp
  have s2: "split_nl (join_nl [''// config'', env_line, ''run();'']) = [''// config'', env_line, ''run();'']"
    by code_simp
  have s3: "split_nl (join_nl [''// config'', guarded_line, ''run();'']) = [''// config'', guarded_line, ''run();'']"
    by code_simp
  have h1: "1 < length (split_nl (join_nl [''// config'', secret_line, ''run();'']))"
    by (simp add: s1)
  have h2: "1 < length (split_nl (join_nl [''// config'', env_line, ''run();'']))"
    by (simp add: s2)
  have h3: "1 < length (split_nl (join_nl [''// config'', guarded_line, ''run();'']))"
    by (simp add: s3)
  have n1: "split_nl (join_nl [''// config'', secret_line, ''run();'']) ! 1 = secret_line"
    by (simp add: s1)
  have n2: "split_nl (join_nl [''// config'', env_line, ''run();'']) ! 1 = env_line"
    by (simp add: s2)
  have n3: "split_nl (join_nl [''// config'', guarded_line, ''run();'']) ! 1 = guarded_line"
    by (simp add: s3)
  from hardcoded_secret_finding[OF h1] n1 hardcoded_secret_finding[OF h2] n2
    hardcoded_secret_finding[OF h3] n3 guarded_line_facts
  show ?thesis by metis
qed

subsection \<open>The size ceiling\<close>

text \<open>
  The claim C5 as the specification states it fails on the engine of \<open>reviewCode\<close>:
  \<open>analyzeFiles\<close> has no size test. The sample has two lines and more than 50,000
  characters, the line \<open>const apiKey = "sk-abc123";\<close> followed by 50,001 letters; it is
  analysed in full and its first line yields the Security issue.
\<close>

theorem no_ceiling_in_analyzeFiles_counterexample:
  "50000 < length oversized_source
   \<and> length (split_nl oversized_source) = 2
   \<and> filter (\<lambda>f. category f = ''Security'' \<and> line f = 0 + 1) (file_issues oversized_source)
       = [secret_issue 0]"
proof -
  have sp: "split_nl oversized_source = [secret_line, replicate 50001 (CHR ''x'')]"
    unfolding oversized_source_def
    by (rule split_nl_join_nl) (use secret_line_facts in auto)
  have len: "50000 < length oversized_source"
    by (simp add: oversized_source_def join_nl_def)
  have h: "0 < length (split_nl oversized_source)" by (simp add: sp)
  have e: "\<not> includes_str (split_nl oversized_source ! 0) ''eval(''"
    using no_eval_in_lines by (simp add: sp)
  have "filter (\<lambda>f. category f = ''Security'' \<and> line f = 0 + 1) (file_issues oversized_source)
       = [secret_issue 0]"
    using security_issues_at[OF h e] by (simp add: sp secret_check_flags secret_line_flags)
  with sp len show ?thesis by simp
qed

text \<open>
  Claim C5, amended. In the engine of \<open>performReview\<close> a file of more than 50,000
  characters is answered by \<open>analyzeFile\<close> with the skipped marker alone: the result does
  not depend on the content, static analysis is not applied to it, and the object has no
  list of issues at all, not an empty one; the report collects nothing from it and lists
  the file as skipped with zero issues. The engine of \<open>reviewCode\<close> has no ceiling:
  \<open>analyzeFiles\<close> runs its four checks on the whole content of such a file.
\<close>

theorem oversized_file_is_skipped:
  assumes "length c > 50000"
  shows "analyzeFile filePath ext (ReadOk c sz) = Skipped filePath ''File too large for review''
       \<and> analysis_skipped (analyzeFile filePath ext (ReadOk c sz))
       \<and> analysis_issues (analyzeFile filePath ext (ReadOk c sz)) = None
       \<and> collect_issues (analyzeFile filePath ext (ReadOk c sz)) = []
       \<and> fs_issues (summarize_file (analyzeFile filePath ext (ReadOk c sz))) = 0
       \<and> fs_skipped (summarize_file (analyzeFile filePath ext (ReadOk c sz)))
       \<and> map fa_issues (analyzeFiles [(filePath, Some c)])
           = [checkCommonIssues c @ checkSecurity c @ checkPerformance c @ checkMaintainability c]"
  using assms
  by (simp add: analyzeFile_def analysis_skipped_def analysis_issues_def collect_issues_def
      summarize_file_def analyzeFiles_def analyze_one_def)

text \<open>The ceiling at a file of 50,001 characters.\<close>

theorem oversized_file_is_skipped_witness:
  "length (replicate 50001 (CHR ''x'')) > 50000
   \<and> analyzeFile ''big.js'' ''.js'' (ReadOk (replicate 50001 (CHR ''x'')) 50001)
       = Skipped ''big.js'' ''File too large for review''
   \<and> analysis_issues (analyzeFile ''big.js'' ''.js'' (ReadOk (replicate 50001 (CHR ''x'')) 50001)) = None
   \<and> collect_issues (analyzeFile ''big.js'' ''.js'' (ReadOk (replicate 50001 (CHR ''x'')) 50001)) = []"
proof -
  have h: "length (replicate 50001 (CHR ''x'')) > 50000" by simp
  from h oversized_file_is_skipped[OF h, of "''big.js''" "''.js''" 50001]
  show ?thesis by blast
qed

subsection \<open>Comments\<close>

lemma console_log_check_line: "list_all (\<lambda>f. line f = index + 1) (console_log_check index l)"
  by (simp add: console_log_check_def)

lemma magic_number_check_line: "list_all (\<lambda>f. line f = index + 1) (magic_number_check index l)"
  by (simp add: magic_number_check_def Let_def list_all_concat_map)

text \<open>
  The claim C7 as the specification states it fails for block comments: the second line of
  \<open>/*\<close>, \<open> * console.log(42)\<close>, \<open> */\<close> lies inside a block comment and still
  yields a Debug Code issue and a Maintainability issue.
\<close>

theorem block_comment_not_suppressed_counterexample:
  "split_nl (join_nl block_comment) = block_comment
   \<and> checkCommonIssues (join_nl block_comment)
      = [\<lparr> type = ''warning'', category = ''Debug Code'', line = 2,
            message = ''Console.log statement found - consider removing for production'',
            severity = ''low'', in_file = None \<rparr>]
   \<and> checkMaintainability (join_nl block_comment)
      = [\<lparr> type = ''info'', category = ''Maintainability'', line = 2,
            message = ''Magic number 42 found. Consider using a named constant.'',
            severity = ''low'', in_file = None \<rparr>]"
  by code_simp

text \<open>
  Claim C7, amended. On a line whose trimmed text starts with \<open>//\<close> no Debug Code issue
  and no magic-number issue is reported; block comments are not recognised. Security is
  never suppressed: a line that one of the secret patterns accepts and that does not
  contain \<open>process.env\<close> yields its Security issue, commented out or not.
\<close>

theorem comment_suppression:
  assumes "i < length (split_nl c)"
  shows "(startsWith (trim (split_nl c ! i)) ''//'' \<longrightarrow>
            filter (\<lambda>f. category f = ''Debug Code'' \<and> line f = i + 1) (file_issues c) = []
          \<and> filter (\<lambda>f. line f = i + 1) (each_line magic_number_check (split_nl c)) = [])
       \<and> ((\<exists>p\<in>set secretPatterns. test p (split_nl c ! i))
            \<and> \<not> includes_str (split_nl c ! i) ''process.env''
          \<longrightarrow> secret_issue i \<in> set (file_issues c)
            \<and> category (secret_issue i) = ''Security'' \<and> line (secret_issue i) = i + 1)"
proof (intro conjI impI)
  assume sl: "startsWith (trim (split_nl c ! i)) ''//''"
  have "filter (\<lambda>f. category f = ''Debug Code'' \<and> line f = i + 1) (file_issues c)
          = filter (\<lambda>f. line f = i + 1) (filter (\<lambda>f. category f = ''Debug Code'') (file_issues c))"
    by simp
  also have "\<dots> = console_log_check i (split_nl c ! i)"
    using each_line_at[of console_log_check, OF console_log_check_line assms]
    by (simp add: debug_issues_of_file)
  also have "\<dots> = []" using sl by (simp add: console_log_check_def)
  finally show "filter (\<lambda>f. category f = ''Debug Code'' \<and> line f = i + 1) (file_issues c) = []" .
  have "filter (\<lambda>f. line f = i + 1) (each_line magic_number_check (split_nl c))
          = magic_number_check i (split_nl c ! i)"
    using each_line_at[of magic_number_check, OF magic_number_check_line assms] .
  also have "\<dots> = []" using sl by (simp add: magic_number_check_def Let_def)
  finally show "filter (\<lambda>f. line f = i + 1) (each_line magic_number_check (split_nl c)) = []" .
next
  assume a: "(\<exists>p\<in>set secretPatterns. test p (split_nl c ! i))
            \<and> \<not> includes_str (split_nl c ! i) ''process.env''"
  then have "secret_issue i \<in> set (secret_check i (split_nl c ! i))"
    by (auto simp: secret_check_def)
  then have "secret_issue i \<in> set (each_line secret_check (split_nl c))"
    using each_line_contains[of secret_check, OF secret_check_line assms] by auto
  then show "secret_issue i \<in> set (file_issues c)"
    by (simp add: file_issues_eq checkSecurity_def)
next
  show "category (secret_issue i) = ''Security''" by (simp add: secret_issue_def)
next
  show "line (secret_issue i) = i + 1" by (simp add: secret_issue_def)
qed

text \<open>
  A commented-out line with a password literal, a \<open>console.log\<close> and the number 42:
  only the secret is reported.
\<close>

theorem comment_suppression_witness:
  "startsWith (trim commented_secret) ''//''
   \<and> includes_str commented_secret ''console.log''
   \<and> filter (\<lambda>f. category f = ''Debug Code'' \<and> line f = 0 + 1) (file_issues commented_secret) = []
   \<and> filter (\<lambda>f. line f = 0 + 1) (each_line magic_number_check (split_nl commented_secret)) = []
   \<and> secret_issue 0 \<in> set (file_issues commented_secret)"
proof -
  have s: "split_nl commented_secret = [commented_secret]" by code_simp
  have h: "0 < length (split_nl commented_secret)" by (simp add: s)
  have n: "split_nl commented_secret ! 0 = commented_secret" by (simp add: s)
  have a: "startsWith (trim commented_secret) ''//'' \<and> includes_str commented_secret ''console.log''"
    by code_simp
  have b: "test (secretPatterns ! 0) commented_secret \<and> \<not> includes_str commented_secret ''process.env''"
    by code_simp
  have "secretPatterns ! 0 \<in> set secretPatterns" by (simp add: secretPatterns_def)
  with b have b': "(\<exists>p\<in>set secretPatterns. test p commented_secret)
      \<and> \<not> includes_str commented_secret ''process.env''" by blast
  from comment_suppression[OF h] n a b' show ?thesis by simp
qed

subsection \<open>Nested loops\<close>






end
